theory Spec2Isabelle
  imports Complex_Main "HOL-Library.Word" "HOL-Library.Log_Nat"
begin

unbundle bit_operations_syntax

section \<open>Vulkan minimal compute: the host program of jp\_main.cpp\<close>

text \<open>
  The program is one class, \<open>ComputeApplication\<close>, whose member functions call the Vulkan
  driver, the C library and the PNG encoder. Everything those collaborators answer is
  collected in an environment record; the member functions are translated one by one as
  functions of that environment.
\<close>

subsection \<open>Results of a call\<close>

text \<open>
  A C++ call either returns, or throws \<open>std::runtime_error\<close> with a message, or ends in
  \<open>abort()\<close> (a failed \<open>assert\<close>), or runs into behaviour the language leaves undefined (a
  null \<open>FILE*\<close> handed to \<open>fseek\<close>, a shift by 32 or more, a float-to-integer cast whose
  value does not fit).
\<close>

datatype 'a result = Returned 'a | Thrown string | Aborted | Undefined

type_synonym u8 = "8 word"
type_synonym u32 = "32 word"

subsection \<open>Memory types\<close>

text \<open>
  \<open>VkMemoryType\<close> and \<open>VkPhysicalDeviceMemoryProperties\<close> of the Vulkan headers. The C
  array \<open>memoryTypes[VK_MAX_MEMORY_TYPES]\<close> is a list; reading past its end is undefined.
\<close>

record VkMemoryType =
  propertyFlags :: u32
  heapIndex :: u32

record VkPhysicalDeviceMemoryProperties =
  memoryTypeCount :: u32
  memoryTypes :: "VkMemoryType list"

definition VK_MEMORY_PROPERTY_HOST_VISIBLE_BIT :: u32 where
  "VK_MEMORY_PROPERTY_HOST_VISIBLE_BIT = 2"

definition VK_MEMORY_PROPERTY_HOST_COHERENT_BIT :: u32 where
  "VK_MEMORY_PROPERTY_HOST_COHERENT_BIT = 4"

text \<open>
  The loop of \<open>FindMemoryType\<close>: \<open>i\<close> is the loop counter, the last argument the number
  of iterations left (\<open>memoryTypeCount - i\<close>). \<open>1 << i\<close> is an \<open>int\<close> shift, undefined from
  \<open>i = 32\<close> on; \<open>&&\<close> reads the array only when the mask bit is set. Falling out of the
  loop returns \<open>-1\<close>, converted to \<open>uint32_t\<close>.
\<close>

fun FindMemoryType_loop ::
  "VkPhysicalDeviceMemoryProperties \<Rightarrow> u32 \<Rightarrow> u32 \<Rightarrow> nat \<Rightarrow> nat \<Rightarrow> u32 result" where
  "FindMemoryType_loop mp memory_type_bits properties i 0 = Returned (- 1)"
| "FindMemoryType_loop mp memory_type_bits properties i (Suc n) =
     (if 32 \<le> i then Undefined
      else if memory_type_bits AND push_bit i 1 \<noteq> 0 then
        (if length (memoryTypes mp) \<le> i then Undefined
         else if propertyFlags (memoryTypes mp ! i) AND properties = properties
         then Returned (of_nat i)
         else FindMemoryType_loop mp memory_type_bits properties (Suc i) n)
      else FindMemoryType_loop mp memory_type_bits properties (Suc i) n)"

definition FindMemoryType ::
  "VkPhysicalDeviceMemoryProperties \<Rightarrow> u32 \<Rightarrow> u32 \<Rightarrow> u32 result" where
  "FindMemoryType mp memory_type_bits properties =
     FindMemoryType_loop mp memory_type_bits properties 0 (unat (memoryTypeCount mp))"

text \<open>
  What the driver guarantees about the structure: at most 32 memory types, all of them
  inside the array.
\<close>

definition memory_properties_ok :: "VkPhysicalDeviceMemoryProperties \<Rightarrow> bool" where
  "memory_properties_ok mp \<longleftrightarrow>
     unat (memoryTypeCount mp) \<le> 32 \<and> unat (memoryTypeCount mp) \<le> length (memoryTypes mp)"

text \<open>
  Memory type \<open>i\<close> is suitable when bit \<open>i\<close> of the buffer's mask is set and its property
  flags contain every requested flag.
\<close>

definition suitable ::
  "VkPhysicalDeviceMemoryProperties \<Rightarrow> u32 \<Rightarrow> u32 \<Rightarrow> nat \<Rightarrow> bool" where
  "suitable mp memory_type_bits properties i \<longleftrightarrow>
     bit memory_type_bits i \<and>
     propertyFlags (memoryTypes mp ! i) AND properties = properties"

text \<open>
  The flags \<open>CreateBuffer\<close> asks for:
  \<open>VK_MEMORY_PROPERTY_HOST_COHERENT_BIT | VK_MEMORY_PROPERTY_HOST_VISIBLE_BIT\<close>.
\<close>

definition host_flags :: u32 where
  "host_flags = VK_MEMORY_PROPERTY_HOST_COHERENT_BIT OR VK_MEMORY_PROPERTY_HOST_VISIBLE_BIT"

subsection \<open>Queue families\<close>

text \<open>The two fields of \<open>VkQueueFamilyProperties\<close> that the program reads.\<close>

record VkQueueFamilyProperties =
  queueFlags :: u32
  queueCount :: u32

definition VK_QUEUE_COMPUTE_BIT :: u32 where
  "VK_QUEUE_COMPUTE_BIT = 2"

definition VK_SUCCESS :: int where
  "VK_SUCCESS = 0"

definition EXIT_SUCCESS :: int where
  "EXIT_SUCCESS = 0"

definition EXIT_FAILURE :: int where
  "EXIT_FAILURE = 1"

text \<open>
  The search loop of \<open>GetComputeQueueFamilyIndex\<close>: the counter \<open>i\<close> and the number of
  families still to look at. It stops with \<open>break\<close> at the first family that has a queue
  and the compute bit, and otherwise runs \<open>i\<close> up to the size of the vector.
\<close>

fun queue_family_loop :: "VkQueueFamilyProperties list \<Rightarrow> nat \<Rightarrow> nat \<Rightarrow> nat" where
  "queue_family_loop queue_families i 0 = i"
| "queue_family_loop queue_families i (Suc n) =
     (let props = queue_families ! i
      in if 0 < queueCount props \<and> queueFlags props AND VK_QUEUE_COMPUTE_BIT \<noteq> 0 then i
         else queue_family_loop queue_families (Suc i) n)"

text \<open>
  A family is compute-capable when its flags include the compute bit; the test of the
  loop asks for a queue as well.
\<close>

definition compute_capable :: "VkQueueFamilyProperties \<Rightarrow> bool" where
  "compute_capable props \<longleftrightarrow> bit (queueFlags props) 1"

definition has_compute_queue :: "VkQueueFamilyProperties \<Rightarrow> bool" where
  "has_compute_queue props \<longleftrightarrow> 0 < queueCount props \<and> compute_capable props"

subsection \<open>Single-precision arithmetic\<close>

text \<open>
  The values of an IEEE 754 binary32 \<open>float\<close>: a finite value is the rational it denotes
  (the sign of zero is dropped; every zero that is divided by here is the \<open>+0\<close> of an
  integer conversion). \<open>round_float32\<close> is rounding to nearest, ties to even, to a 24-bit
  significand with exponents from \<open>-149\<close> (subnormals) and overflow to infinity from
  \<open>2 ^ 128\<close>, which is what every \<open>float\<close> operation and conversion of the program does
  with its exact result.
\<close>

datatype float32 = Finite rat | PlusInf | MinusInf | NaN

definition rnd_even :: "rat \<Rightarrow> int" where
  "rnd_even x = (let f = \<lfloor>x\<rfloor>; d = x - of_int f in
      if d < 1 / 2 then f else if 1 / 2 < d then f + 1 else if even f then f else f + 1)"

definition pow2 :: "int \<Rightarrow> rat" where
  "pow2 e = (if 0 \<le> e then 2 ^ nat e else 1 / 2 ^ nat (- e))"

text \<open>The binary exponent \<open>\<lfloor>log\<^sub>2 x\<rfloor>\<close> of a positive rational.\<close>

definition ilog2 :: "rat \<Rightarrow> int" where
  "ilog2 x = (if 1 \<le> x then bitlen \<lfloor>x\<rfloor> - 1 else - bitlen (\<lceil>1 / x\<rceil> - 1))"

definition round_float32 :: "rat \<Rightarrow> float32" where
  "round_float32 x = (if x = 0 then Finite 0 else
     let a = \<bar>x\<bar>; q = pow2 (max (ilog2 a - 23) (- 149)); y = of_int (rnd_even (a / q)) * q in
     if 2 ^ 128 \<le> y then (if 0 < x then PlusInf else MinusInf) else Finite (sgn x * y))"

text \<open>Conversion of an \<open>int32_t\<close> to \<open>float\<close>.\<close>

definition int_to_float :: "int \<Rightarrow> float32" where
  "int_to_float n = round_float32 (of_int n)"

fun float_div :: "float32 \<Rightarrow> float32 \<Rightarrow> float32" where
  "float_div NaN y = NaN"
| "float_div x NaN = NaN"
| "float_div (Finite x) (Finite y) =
     (if y = 0 then (if x = 0 then NaN else if 0 < x then PlusInf else MinusInf)
      else round_float32 (x / y))"
| "float_div (Finite x) y = Finite 0"
| "float_div x (Finite y) = (if (x = PlusInf) = (0 \<le> y) then PlusInf else MinusInf)"
| "float_div x y = NaN"

fun float_mul :: "float32 \<Rightarrow> float32 \<Rightarrow> float32" where
  "float_mul NaN y = NaN"
| "float_mul x NaN = NaN"
| "float_mul (Finite x) (Finite y) = round_float32 (x * y)"
| "float_mul (Finite x) y =
     (if x = 0 then NaN else if (y = PlusInf) = (0 < x) then PlusInf else MinusInf)"
| "float_mul x (Finite y) =
     (if y = 0 then NaN else if (x = PlusInf) = (0 < y) then PlusInf else MinusInf)"
| "float_mul x y = (if x = y then PlusInf else MinusInf)"

fun float_ceil :: "float32 \<Rightarrow> float32" where
  "float_ceil (Finite x) = Finite (of_int \<lceil>x\<rceil>)"
| "float_ceil x = x"

text \<open>
  A cast from \<open>float\<close> to an unsigned integer type of \<open>w\<close> bits drops the fraction; when
  the truncated value is not a value of the type (or the operand is not finite), the
  behaviour is undefined.
\<close>

definition truncate_toward_zero :: "rat \<Rightarrow> int" where
  "truncate_toward_zero x = (if 0 \<le> x then \<lfloor>x\<rfloor> else \<lceil>x\<rceil>)"

fun float_to_unsigned :: "float32 \<Rightarrow> 'w::len word result" where
  "float_to_unsigned (Finite x) =
     (if 0 \<le> truncate_toward_zero x \<and> truncate_toward_zero x < 2 ^ LENGTH('w)
      then Returned (word_of_int (truncate_toward_zero x))
      else Undefined)"
| "float_to_unsigned x = Undefined"

text \<open>
  The group count of one axis, as \<open>CreateCommandBuffer\<close> computes it:
  \<open>(uint32_t)ceil(extent / float(kWorkgroupeSize))\<close>, with \<open>extent\<close> an \<open>int32_t\<close> that the
  division converts to \<open>float\<close>.
\<close>

definition group_count :: "int \<Rightarrow> int \<Rightarrow> u32 result" where
  "group_count extent workgroup_size =
     float_to_unsigned (float_ceil (float_div (int_to_float extent) (int_to_float workgroup_size)))"

text \<open>
  The channel conversion of \<open>SaveRenderedImage\<close>: \<open>(unsigned char)(255.0f * value)\<close>.
\<close>

definition channel_byte :: "float32 \<Rightarrow> u8 result" where
  "channel_byte v = float_to_unsigned (float_mul (Finite 255) v)"

subsection \<open>The environment and the state of the application\<close>

text \<open>
  The driver calls that create, release, record or submit something, in the spelling of
  the Vulkan API. A call carries the arguments that the program computes itself.
\<close>

datatype vk_call =
    vkCreateInstance
  | vkCreateDebugReportCallbackEXT
  | vkCreateDevice u32
  | vkGetDeviceQueue u32
  | vkCreateBuffer u32
  | vkAllocateMemory u32
  | vkBindBufferMemory
  | vkCreateDescriptorSetLayout
  | vkCreateDescriptorPool
  | vkAllocateDescriptorSets
  | vkUpdateDescriptorSets
  | vkCreateShaderModule u32
  | vkCreatePipelineLayout
  | vkCreateComputePipelines
  | vkCreateCommandPool u32
  | vkAllocateCommandBuffers
  | vkBeginCommandBuffer
  | vkCmdBindPipeline
  | vkCmdBindDescriptorSets
  | vkCmdDispatch u32 u32 u32
  | vkEndCommandBuffer
  | vkCreateFence
  | vkQueueSubmit
  | vkWaitForFences
  | vkDestroyFence
  | vkMapMemory
  | vkUnmapMemory
  | vkDestroyDebugReportCallbackEXT
  | vkFreeMemory
  | vkDestroyBuffer
  | vkDestroyShaderModule
  | vkDestroyDescriptorPool
  | vkDestroyDescriptorSetLayout
  | vkDestroyPipelineLayout
  | vkDestroyPipeline
  | vkDestroyCommandPool
  | vkDestroyDevice
  | vkDestroyInstance

text \<open>
  What the program prints on standard output: the line of \<open>VK_CHECK_RESULT\<close> (with the
  \<open>VkResult\<close>; file and line left out), the line of \<open>ReadFile\<close>, the line of the encoder
  error, and the \<open>what()\<close> of a caught exception.
\<close>

datatype message =
    Fatal_VkResult int
  | Could_not_find_or_open string
  | Encoder_error u32
  | What string

record Pixel =
  chan_r :: float32
  chan_g :: float32
  chan_b :: float32
  chan_a :: float32

text \<open>
  The environment of one run: the build (\<open>NDEBUG\<close>), the compile-time constants, and the
  answers of the driver, the file system and the encoder. \<open>mapped_memory\<close> is the content
  of the buffer as \<open>vkMapMemory\<close> exposes it, \<open>None\<close> when the call leaves the pointer null.
\<close>

record env =
  NDEBUG :: bool
  kWidth :: int
  kHeight :: int
  kWorkgroupeSize :: int
  layer_properties :: "string list"
  extension_properties :: "string list"
  create_debug_report_loaded :: bool
  destroy_debug_report_loaded :: bool
  devices :: "nat list"
  queue_family_properties :: "nat \<Rightarrow> VkQueueFamilyProperties list"
  memory_properties :: "nat \<Rightarrow> VkPhysicalDeviceMemoryProperties"
  memoryTypeBits :: u32
  vk_result :: "vk_call \<Rightarrow> int"
  files :: "string \<Rightarrow> u8 list option"
  mapped_memory :: "(nat \<Rightarrow> Pixel) option"
  encoder_error :: u32

definition kEnableValidationLayers :: "env \<Rightarrow> bool" where
  "kEnableValidationLayers e \<longleftrightarrow> \<not> NDEBUG e"

text \<open>
  The members of \<open>ComputeApplication\<close> that hold plain data, the calls made so far, the
  output so far and what was handed to \<open>lodepng::encode\<close>.
\<close>

record app =
  buffer_size :: u32
  enabled_layers :: "string list"
  physical_device :: nat
  queue_family_index :: u32
  calls :: "vk_call list"
  stdout :: "message list"
  png_input :: "(u8 list \<times> int \<times> int) option"

type_synonym 'a prog = "app \<Rightarrow> 'a result \<times> app"

definition return :: "'a \<Rightarrow> 'a prog" where
  "return x s = (Returned x, s)"

definition throw :: "string \<Rightarrow> 'a prog" where
  "throw what s = (Thrown what, s)"

definition abort :: "'a prog" where
  "abort s = (Aborted, s)"

definition undefined_behaviour :: "'a prog" where
  "undefined_behaviour s = (Undefined, s)"

definition lift :: "'a result \<Rightarrow> 'a prog" where
  "lift x s = (x, s)"

definition bind :: "'a prog \<Rightarrow> ('a \<Rightarrow> 'b prog) \<Rightarrow> 'b prog" where
  "bind m f s =
     (case m s of
        (Returned x, s') \<Rightarrow> f x s'
      | (Thrown what, s') \<Rightarrow> (Thrown what, s')
      | (Aborted, s') \<Rightarrow> (Aborted, s')
      | (Undefined, s') \<Rightarrow> (Undefined, s'))"

fun steps :: "unit prog list \<Rightarrow> unit prog" where
  "steps [] = return ()"
| "steps (p # ps) = bind p (\<lambda>_. steps ps)"

definition if_then :: "bool \<Rightarrow> unit prog \<Rightarrow> unit prog" where
  "if_then c p = (if c then p else return ())"

definition modify :: "(app \<Rightarrow> app) \<Rightarrow> unit prog" where
  "modify f s = (Returned (), f s)"

definition printf :: "message \<Rightarrow> unit prog" where
  "printf m = modify (\<lambda>s. s\<lparr>stdout := stdout s @ [m]\<rparr>)"

definition call :: "vk_call \<Rightarrow> unit prog" where
  "call c = modify (\<lambda>s. s\<lparr>calls := calls s @ [c]\<rparr>)"

text \<open>
  \<open>VK_CHECK_RESULT(f)\<close>: make the call, and when its result is not \<open>VK_SUCCESS\<close> print the
  line and \<open>assert(res == VK_SUCCESS)\<close>. With \<open>NDEBUG\<close> the \<open>assert\<close> expands to nothing.
\<close>

definition VK_CHECK_RESULT :: "env \<Rightarrow> vk_call \<Rightarrow> unit prog" where
  "VK_CHECK_RESULT e f =
     bind (call f) (\<lambda>_.
       let res = vk_result e f in
       if_then (res \<noteq> VK_SUCCESS)
         (bind (printf (Fatal_VkResult res)) (\<lambda>_. if_then (\<not> NDEBUG e) abort)))"

subsection \<open>The member functions\<close>

definition VK_EXT_DEBUG_REPORT_EXTENSION_NAME :: string where
  "VK_EXT_DEBUG_REPORT_EXTENSION_NAME = ''VK_EXT_debug_report''"

definition CreateInstance :: "env \<Rightarrow> unit prog" where
  "CreateInstance e = steps
     [if_then (kEnableValidationLayers e) (steps
        [if_then (''VK_LAYER_LUNARG_standard_validation'' \<notin> set (layer_properties e))
           (throw (''Layer VK_LAYER_LUNARG_standard_validation not supported'' @ [CHR 0x0A])),
         modify (\<lambda>s. s\<lparr>enabled_layers :=
           enabled_layers s @ [''VK_LAYER_LUNARG_standard_validation'']\<rparr>),
         if_then (VK_EXT_DEBUG_REPORT_EXTENSION_NAME \<notin> set (extension_properties e))
           (throw (''Extension VK_EXT_DEBUG_REPORT_EXTENSION_NAME not supported'' @ [CHR 0x0A]))]),
      VK_CHECK_RESULT e vkCreateInstance,
      if_then (kEnableValidationLayers e) (steps
        [if_then (\<not> create_debug_report_loaded e)
           (throw ''Could not load vkCreateDebugReportCallbackEXT''),
         VK_CHECK_RESULT e vkCreateDebugReportCallbackEXT])]"

text \<open>
  \<open>FindPhysicalDevice\<close>: no device is an error; otherwise the loop over the devices takes
  the first one (its test is the constant \<open>true\<close>) and leaves.
\<close>

definition FindPhysicalDevice :: "env \<Rightarrow> unit prog" where
  "FindPhysicalDevice e =
     (case devices e of
        [] \<Rightarrow> throw ''could not find a device with vulkan support''
      | device # _ \<Rightarrow> modify (\<lambda>s. s\<lparr>physical_device := device\<rparr>))"

definition GetComputeQueueFamilyIndex :: "env \<Rightarrow> u32 prog" where
  "GetComputeQueueFamilyIndex e s =
     (let queue_families = queue_family_properties e (physical_device s);
          i = queue_family_loop queue_families 0 (length queue_families)
      in if i = length queue_families
         then throw ''could not find a queue family that supports operations'' s
         else return (of_nat i) s)"

definition CreateDevice :: "env \<Rightarrow> unit prog" where
  "CreateDevice e =
     bind (GetComputeQueueFamilyIndex e) (\<lambda>i. steps
       [modify (\<lambda>s. s\<lparr>queue_family_index := i\<rparr>),
        VK_CHECK_RESULT e (vkCreateDevice i),
        call (vkGetDeviceQueue i)])"

definition CreateBuffer :: "env \<Rightarrow> unit prog" where
  "CreateBuffer e s = steps
     [VK_CHECK_RESULT e (vkCreateBuffer (buffer_size s)),
      bind (lift (FindMemoryType (memory_properties e (physical_device s)) (memoryTypeBits e)
                    host_flags))
        (\<lambda>memoryTypeIndex. VK_CHECK_RESULT e (vkAllocateMemory memoryTypeIndex)),
      VK_CHECK_RESULT e vkBindBufferMemory] s"

definition CreateDescriptorSetLayout :: "env \<Rightarrow> unit prog" where
  "CreateDescriptorSetLayout e = VK_CHECK_RESULT e vkCreateDescriptorSetLayout"

definition CreateDescriptorSet :: "env \<Rightarrow> unit prog" where
  "CreateDescriptorSet e = steps
     [VK_CHECK_RESULT e vkCreateDescriptorPool,
      VK_CHECK_RESULT e vkAllocateDescriptorSets,
      call vkUpdateDescriptorSets]"

text \<open>
  \<open>ReadFile\<close>: when \<open>fopen\<close> gives the null pointer the function prints its line and goes
  on to \<open>fseek(fp, 0, SEEK_END)\<close> with that null stream; nothing returns or throws in
  between. Otherwise the content is padded with zero bytes to a multiple of four
  (\<open>long(ceil(filesize / 4.0)) * 4\<close>, exact in \<open>double\<close> for every size below \<open>2 ^ 53\<close>) and
  returned with the padded length.
\<close>

definition ReadFile :: "env \<Rightarrow> string \<Rightarrow> (u8 list \<times> u32) prog" where
  "ReadFile e filename =
     (case files e filename of
        None \<Rightarrow> bind (printf (Could_not_find_or_open filename)) (\<lambda>_. undefined_behaviour)
      | Some content \<Rightarrow>
          (let filesize = int (length content);
               filesizepadded = \<lceil>(of_int filesize :: rat) / 4\<rceil> * 4
           in return (content @ replicate (nat (filesizepadded - filesize)) 0,
                      word_of_int filesizepadded)))"

definition CreateComputePipeline :: "env \<Rightarrow> unit prog" where
  "CreateComputePipeline e =
     bind (ReadFile e ''shaders/comp.spv'') (\<lambda>(code, file_length). steps
       [VK_CHECK_RESULT e (vkCreateShaderModule file_length),
        VK_CHECK_RESULT e vkCreatePipelineLayout,
        VK_CHECK_RESULT e vkCreateComputePipelines])"

definition CreateCommandBuffer :: "env \<Rightarrow> unit prog" where
  "CreateCommandBuffer e s = steps
     [VK_CHECK_RESULT e (vkCreateCommandPool (queue_family_index s)),
      VK_CHECK_RESULT e vkAllocateCommandBuffers,
      VK_CHECK_RESULT e vkBeginCommandBuffer,
      call vkCmdBindPipeline,
      call vkCmdBindDescriptorSets,
      bind (lift (group_count (kWidth e) (kWorkgroupeSize e))) (\<lambda>x.
        bind (lift (group_count (kHeight e) (kWorkgroupeSize e))) (\<lambda>y.
          call (vkCmdDispatch x y 1))),
      VK_CHECK_RESULT e vkEndCommandBuffer] s"

definition RunCommandBuffer :: "env \<Rightarrow> unit prog" where
  "RunCommandBuffer e = steps
     [VK_CHECK_RESULT e vkCreateFence,
      VK_CHECK_RESULT e vkQueueSubmit,
      VK_CHECK_RESULT e vkWaitForFences,
      call vkDestroyFence]"

definition and_then :: "'a result \<Rightarrow> ('a \<Rightarrow> 'b result) \<Rightarrow> 'b result" where
  "and_then x f =
     (case x of Returned v \<Rightarrow> f v | Thrown what \<Rightarrow> Thrown what
      | Aborted \<Rightarrow> Aborted | Undefined \<Rightarrow> Undefined)"

text \<open>
  The loop of \<open>SaveRenderedImage\<close> over the pixels: \<open>i\<close> is the counter, then the number
  of pixels left and the vector \<open>image\<close> so far (\<open>image_vec\<close>). Reading through a null
  \<open>pmapped_memory\<close> is undefined.
\<close>

fun pixel_loop :: "(nat \<Rightarrow> Pixel) option \<Rightarrow> nat \<Rightarrow> nat \<Rightarrow> u8 list \<Rightarrow> u8 list result" where
  "pixel_loop pmapped_memory i 0 image_vec = Returned image_vec"
| "pixel_loop pmapped_memory i (Suc n) image_vec =
     (case pmapped_memory of
        None \<Rightarrow> Undefined
      | Some px \<Rightarrow>
          and_then (channel_byte (chan_r (px i))) (\<lambda>r.
          and_then (channel_byte (chan_g (px i))) (\<lambda>g.
          and_then (channel_byte (chan_b (px i))) (\<lambda>b.
          and_then (channel_byte (chan_a (px i))) (\<lambda>a.
            pixel_loop pmapped_memory (Suc i) n (image_vec @ [r, g, b, a]))))))"

definition int32 :: "int \<Rightarrow> bool" where
  "int32 x \<longleftrightarrow> - (2 ^ 31) \<le> x \<and> x < 2 ^ 31"

text \<open>
  \<open>SaveRenderedImage\<close>. \<open>kWidth * kHeight * 4\<close> is \<open>int\<close> arithmetic, undefined on
  overflow; a negative argument of \<open>reserve\<close> is a huge \<open>size_t\<close>, for which the vector
  throws \<open>std::length_error\<close>, which \<open>main\<close> does not catch. The status of the encoder is
  printed when it is not zero, and nothing else depends on it.
\<close>

definition SaveRenderedImage :: "env \<Rightarrow> unit prog" where
  "SaveRenderedImage e = steps
     [call vkMapMemory,
      if_then (\<not> int32 (kWidth e * kHeight e) \<or> \<not> int32 (kWidth e * kHeight e * 4))
        undefined_behaviour,
      if_then (kWidth e * kHeight e * 4 < 0) abort,
      bind (lift (pixel_loop (mapped_memory e) 0 (nat (kWidth e * kHeight e)) []))
        (\<lambda>image_vec. steps
        [call vkUnmapMemory,
         modify (\<lambda>s. s\<lparr>png_input := Some (image_vec, kWidth e, kHeight e)\<rparr>),
         if_then (encoder_error e \<noteq> 0) (printf (Encoder_error (encoder_error e)))])]"

definition CleanUp :: "env \<Rightarrow> unit prog" where
  "CleanUp e = steps
     [if_then (kEnableValidationLayers e) (steps
        [if_then (\<not> destroy_debug_report_loaded e)
           (throw ''Could not load vkDestroyDebugReportCallbackEXT''),
         call vkDestroyDebugReportCallbackEXT]),
      call vkFreeMemory,
      call vkDestroyBuffer,
      call vkDestroyShaderModule,
      call vkDestroyDescriptorPool,
      call vkDestroyDescriptorSetLayout,
      call vkDestroyPipelineLayout,
      call vkDestroyPipeline,
      call vkDestroyCommandPool,
      call vkDestroyDevice,
      call vkDestroyInstance]"

text \<open>\<open>sizeof(Pixel)\<close> is 16; the product is taken in \<open>size_t\<close> and stored in a \<open>uint32_t\<close>.\<close>

definition Run :: "env \<Rightarrow> unit prog" where
  "Run e = steps
     [modify (\<lambda>s. s\<lparr>buffer_size := word_of_int (16 * kWidth e * kHeight e)\<rparr>),
      CreateInstance e,
      FindPhysicalDevice e,
      CreateDevice e,
      CreateBuffer e,
      CreateDescriptorSetLayout e,
      CreateDescriptorSet e,
      CreateComputePipeline e,
      CreateCommandBuffer e,
      RunCommandBuffer e,
      SaveRenderedImage e,
      CleanUp e]"

text \<open>
  The object \<open>app\<close> of \<open>main\<close> before \<open>Run\<close>: the vector of layers is empty, nothing has been
  called or printed; the other members are not initialised and are written before they
  are read.
\<close>

definition app0 :: app where
  "app0 = \<lparr>buffer_size = 0, enabled_layers = [], physical_device = 0, queue_family_index = 0,
           calls = [], stdout = [], png_input = None\<rparr>"

text \<open>
  \<open>main\<close>: the exit code, or \<open>Aborted\<close> or \<open>Undefined\<close> when \<open>Run\<close> ends that way. Only
  \<open>std::runtime_error\<close> is caught, printed and turned into \<open>EXIT_FAILURE\<close>.
\<close>

definition main :: "env \<Rightarrow> int result \<times> app" where
  "main e =
     (case Run e app0 of
        (Returned _, s) \<Rightarrow> (Returned EXIT_SUCCESS, s)
      | (Thrown what, s) \<Rightarrow> (Returned EXIT_FAILURE, s\<lparr>stdout := stdout s @ [What what]\<rparr>)
      | (Aborted, s) \<Rightarrow> (Aborted, s)
      | (Undefined, s) \<Rightarrow> (Undefined, s))"

subsection \<open>Resources\<close>

text \<open>The objects the calls create and release.\<close>

datatype resource =
    Instance | Debug_report_callback | Device | Buffer | Device_memory
  | Descriptor_set_layout | Descriptor_pool | Descriptor_set | Shader_module
  | Pipeline_layout | Pipeline | Command_pool | Command_buffer | Fence

fun creates :: "vk_call \<Rightarrow> resource option" where
  "creates vkCreateInstance = Some Instance"
| "creates vkCreateDebugReportCallbackEXT = Some Debug_report_callback"
| "creates (vkCreateDevice _) = Some Device"
| "creates (vkCreateBuffer _) = Some Buffer"
| "creates (vkAllocateMemory _) = Some Device_memory"
| "creates vkCreateDescriptorSetLayout = Some Descriptor_set_layout"
| "creates vkCreateDescriptorPool = Some Descriptor_pool"
| "creates vkAllocateDescriptorSets = Some Descriptor_set"
| "creates (vkCreateShaderModule _) = Some Shader_module"
| "creates vkCreatePipelineLayout = Some Pipeline_layout"
| "creates vkCreateComputePipelines = Some Pipeline"
| "creates (vkCreateCommandPool _) = Some Command_pool"
| "creates vkAllocateCommandBuffers = Some Command_buffer"
| "creates vkCreateFence = Some Fence"
| "creates _ = None"

text \<open>
  Destroying a pool releases what was allocated from it, so the descriptor set and the
  command buffer have no call of their own.
\<close>

fun destroys :: "vk_call \<Rightarrow> resource option" where
  "destroys vkDestroyDebugReportCallbackEXT = Some Debug_report_callback"
| "destroys vkFreeMemory = Some Device_memory"
| "destroys vkDestroyBuffer = Some Buffer"
| "destroys vkDestroyShaderModule = Some Shader_module"
| "destroys vkDestroyDescriptorPool = Some Descriptor_pool"
| "destroys vkDestroyDescriptorSetLayout = Some Descriptor_set_layout"
| "destroys vkDestroyPipelineLayout = Some Pipeline_layout"
| "destroys vkDestroyPipeline = Some Pipeline"
| "destroys vkDestroyCommandPool = Some Command_pool"
| "destroys vkDestroyDevice = Some Device"
| "destroys vkDestroyInstance = Some Instance"
| "destroys vkDestroyFence = Some Fence"
| "destroys _ = None"

definition created :: "vk_call list \<Rightarrow> resource list" where
  "created cs = List.map_filter creates cs"

definition destroyed :: "vk_call list \<Rightarrow> resource list" where
  "destroyed cs = List.map_filter destroys cs"

subsection \<open>Example environments\<close>

text \<open>
  A device with a device-local memory type and a host-visible, host-coherent one, and a
  device with a device-local type only.
\<close>

definition mp_two :: VkPhysicalDeviceMemoryProperties where
  "mp_two = \<lparr>memoryTypeCount = 2,
     memoryTypes = [\<lparr>propertyFlags = 1, heapIndex = 0\<rparr>, \<lparr>propertyFlags = 7, heapIndex = 1\<rparr>]\<rparr>"

definition mp_device_local :: VkPhysicalDeviceMemoryProperties where
  "mp_device_local = \<lparr>memoryTypeCount = 1,
     memoryTypes = [\<lparr>propertyFlags = 1, heapIndex = 0\<rparr>]\<rparr>"

text \<open>
  A debug build on a machine where everything succeeds: one device whose second queue
  family is the compute one, a shader file of five bytes, a picture of 3 by 2 pixels in
  work groups of 2.
\<close>

definition env_ok :: env where
  "env_ok = \<lparr>NDEBUG = False, kWidth = 3, kHeight = 2, kWorkgroupeSize = 2,
     layer_properties = [''VK_LAYER_LUNARG_standard_validation''],
     extension_properties = [''VK_EXT_debug_report''],
     create_debug_report_loaded = True, destroy_debug_report_loaded = True,
     devices = [5],
     queue_family_properties =
       (\<lambda>_. [\<lparr>queueFlags = 1, queueCount = 1\<rparr>, \<lparr>queueFlags = 6, queueCount = 2\<rparr>]),
     memory_properties = (\<lambda>_. mp_two), memoryTypeBits = 3,
     vk_result = (\<lambda>_. 0),
     files = (\<lambda>_. Some [3, 2, 35, 7, 1]),
     mapped_memory = Some (\<lambda>_. \<lparr>chan_r = Finite 1, chan_g = Finite (1 / 2),
                                     chan_b = Finite 0, chan_a = Finite 1\<rparr>),
     encoder_error = 0\<rparr>"

text \<open>Variations: the release build, and single things that go wrong.\<close>

definition env_release :: env where
  "env_release = env_ok\<lparr>NDEBUG := True\<rparr>"

definition env_no_shader :: env where
  "env_no_shader = env_ok\<lparr>files := (\<lambda>_. None)\<rparr>"

definition env_no_device :: env where
  "env_no_device = env_ok\<lparr>devices := []\<rparr>"

definition env_no_compute :: env where
  "env_no_compute = env_ok\<lparr>queue_family_properties := (\<lambda>_. [\<lparr>queueFlags = 1, queueCount = 1\<rparr>])\<rparr>"

definition env_empty_family :: env where
  "env_empty_family = env_ok\<lparr>queue_family_properties :=
     (\<lambda>_. [\<lparr>queueFlags = 2, queueCount = 0\<rparr>, \<lparr>queueFlags = 2, queueCount = 1\<rparr>])\<rparr>"

definition VK_TIMEOUT :: int where
  "VK_TIMEOUT = 2"

definition env_fence_timeout :: env where
  "env_fence_timeout =
     env_release\<lparr>vk_result := (\<lambda>f. if f = vkWaitForFences then VK_TIMEOUT else VK_SUCCESS)\<rparr>"

definition VK_ERROR_DEVICE_LOST :: int where
  "VK_ERROR_DEVICE_LOST = - 4"

definition env_all_calls_fail :: env where
  "env_all_calls_fail = env_release\<lparr>vk_result := (\<lambda>_. VK_ERROR_DEVICE_LOST)\<rparr>"

definition env_encoder_fails :: env where
  "env_encoder_fails = env_ok\<lparr>encoder_error := 79\<rparr>"

subsection \<open>Conditions on the environment\<close>

text \<open>
  The conditions under which no step of a run other than a Vulkan call can go wrong:
  every channel of every pixel read back has a defined conversion; the constants are
  positive, exactly convertible to \<open>float\<close>, and \<open>kWidth * kHeight * 4\<close> fits an \<open>int\<close>;
  there is a device, it has a queue family with a compute queue, its memory properties
  are well formed, and the shader file can be opened.
\<close>

definition channel_ok :: "float32 \<Rightarrow> bool" where
  "channel_ok v \<longleftrightarrow> channel_byte v \<noteq> Undefined"

definition pixel_ok :: "Pixel \<Rightarrow> bool" where
  "pixel_ok p \<longleftrightarrow>
     channel_ok (chan_r p) \<and> channel_ok (chan_g p) \<and> channel_ok (chan_b p) \<and> channel_ok (chan_a p)"

definition readable :: "env \<Rightarrow> bool" where
  "readable e \<longleftrightarrow>
     (case mapped_memory e of
        None \<Rightarrow> False
      | Some px \<Rightarrow> \<forall>i < nat (kWidth e * kHeight e). pixel_ok (px i))"

definition constants_ok :: "env \<Rightarrow> bool" where
  "constants_ok e \<longleftrightarrow>
     0 < kWidth e \<and> kWidth e < 2 ^ 24 \<and> 0 < kHeight e \<and> kHeight e < 2 ^ 24 \<and>
     0 < kWorkgroupeSize e \<and> kWorkgroupeSize e < 2 ^ 24 \<and>
     kWidth e * kHeight e * 4 < 2 ^ 31"

definition machine_ok :: "env \<Rightarrow> bool" where
  "machine_ok e \<longleftrightarrow>
     (case devices e of
        [] \<Rightarrow> False
      | device # _ \<Rightarrow>
          (\<exists>props \<in> set (queue_family_properties e device). has_compute_queue props) \<and>
          memory_properties_ok (memory_properties e device)) \<and>
     files e ''shaders/comp.spv'' \<noteq> None"

text \<open>
  A step runs on device \<open>d\<close> when, from every state in which \<open>d\<close> is the selected
  device, it returns and leaves \<open>d\<close> selected.
\<close>

definition runs_on :: "nat \<Rightarrow> 'a prog \<Rightarrow> bool" where
  "runs_on d p \<longleftrightarrow>
     (\<forall>s. physical_device s = d \<longrightarrow> (\<exists>x s'. p s = (Returned x, s') \<and> physical_device s' = d))"


text \<open>
  A step leaves the trace \<open>rs\<close> under a reading \<open>g\<close> of the calls when every run of it
  that returns has added to the calls exactly those that \<open>g\<close> reads as \<open>rs\<close>.
\<close>

definition traces :: "(vk_call \<Rightarrow> 'r option) \<Rightarrow> 'a prog \<Rightarrow> 'r list \<Rightarrow> bool" where
  "traces g p rs \<longleftrightarrow>
     (\<forall>s x s'. p s = (Returned x, s') \<longrightarrow>
        List.map_filter g (calls s') = List.map_filter g (calls s) @ rs)"


section \<open>Properties\<close>

subsection \<open>Memory-type selection\<close>

lemma mask_test_bit:
  "((w :: u32) AND 2 ^ i = 0) = (\<not> bit w i)"
  by (rule and_exp_eq_0_iff_not_bit)

lemma FindMemoryType_loop_found:
  "i + n \<le> 32 \<Longrightarrow> i + n \<le> length (memoryTypes mp) \<Longrightarrow> i \<le> j \<Longrightarrow> j < i + n \<Longrightarrow>
   suitable mp bits props j \<Longrightarrow> (\<forall>k. i \<le> k \<and> k < j \<longrightarrow> \<not> suitable mp bits props k) \<Longrightarrow>
   FindMemoryType_loop mp bits props i n = Returned (of_nat j)"
proof (induction n arbitrary: i)
  case 0
  then show ?case by simp
next
  case (Suc n)
  show ?case
  proof (cases "i = j")
    case True
    with Suc.prems show ?thesis
      by (simp add: suitable_def mask_test_bit)
  next
    case False
    with Suc.prems have ns: "\<not> suitable mp bits props i" and lt: "Suc i \<le> j" by auto
    have "FindMemoryType_loop mp bits props (Suc i) n = Returned (of_nat j)"
      using Suc.prems lt by (intro Suc.IH) auto
    with ns Suc.prems show ?thesis
      by (auto simp: suitable_def mask_test_bit)
  qed
qed

lemma FindMemoryType_loop_none:
  "i + n \<le> 32 \<Longrightarrow> i + n \<le> length (memoryTypes mp) \<Longrightarrow>
   (\<forall>k. i \<le> k \<and> k < i + n \<longrightarrow> \<not> suitable mp bits props k) \<Longrightarrow>
   FindMemoryType_loop mp bits props i n = Returned (- 1)"
proof (induction n arbitrary: i)
  case 0
  then show ?case by simp
next
  case (Suc n)
  from Suc.prems have ns: "\<not> suitable mp bits props i" by auto
  have "FindMemoryType_loop mp bits props (Suc i) n = Returned (- 1)"
    using Suc.prems by (intro Suc.IH) auto
  with ns Suc.prems show ?case
    by (auto simp: suitable_def mask_test_bit)
qed

lemma FindMemoryType_cases:
  assumes "memory_properties_ok mp"
  shows "(\<exists>i < unat (memoryTypeCount mp).
            suitable mp bits props i \<and> (\<forall>j < i. \<not> suitable mp bits props j) \<and>
            FindMemoryType mp bits props = Returned (of_nat i)) \<or>
         ((\<forall>i < unat (memoryTypeCount mp). \<not> suitable mp bits props i) \<and>
          FindMemoryType mp bits props = Returned (- 1))"
proof (cases "\<exists>i < unat (memoryTypeCount mp). suitable mp bits props i")
  case True
  define P where "P = (\<lambda>i. i < unat (memoryTypeCount mp) \<and> suitable mp bits props i)"
  define j where "j = (LEAST i. P i)"
  from True have "\<exists>i. P i" by (auto simp: P_def)
  then have "P j" unfolding j_def by (rule LeastI_ex)
  then have j: "j < unat (memoryTypeCount mp)" "suitable mp bits props j"
    by (simp_all add: P_def)
  have least: "\<not> suitable mp bits props k" if "k < j" for k
  proof
    assume "suitable mp bits props k"
    with that j have "P k" by (simp add: P_def)
    then have "j \<le> k" unfolding j_def by (rule Least_le)
    with that show False by simp
  qed
  from assms have b: "0 + unat (memoryTypeCount mp) \<le> 32"
    "0 + unat (memoryTypeCount mp) \<le> length (memoryTypes mp)"
    by (simp_all add: memory_properties_ok_def)
  have "FindMemoryType_loop mp bits props 0 (unat (memoryTypeCount mp)) = Returned (of_nat j)"
  proof (rule FindMemoryType_loop_found [OF b])
    show "0 \<le> j" by simp
    show "j < 0 + unat (memoryTypeCount mp)" using j by simp
    show "suitable mp bits props j" using j by simp
    show "\<forall>k. 0 \<le> k \<and> k < j \<longrightarrow> \<not> suitable mp bits props k" using least by simp
  qed
  then have "FindMemoryType mp bits props = Returned (of_nat j)"
    by (simp add: FindMemoryType_def)
  with j least show ?thesis by blast
next
  case False
  from assms have b: "0 + unat (memoryTypeCount mp) \<le> 32"
    "0 + unat (memoryTypeCount mp) \<le> length (memoryTypes mp)"
    by (simp_all add: memory_properties_ok_def)
  have "FindMemoryType_loop mp bits props 0 (unat (memoryTypeCount mp)) = Returned (- 1)"
  proof (rule FindMemoryType_loop_none [OF b])
    show "\<forall>k. 0 \<le> k \<and> k < 0 + unat (memoryTypeCount mp) \<longrightarrow> \<not> suitable mp bits props k"
      using False by simp
  qed
  then have "FindMemoryType mp bits props = Returned (- 1)"
    by (simp add: FindMemoryType_def)
  with False show ?thesis by blast
qed

text \<open>
  C1 (as amended). For a well-formed memory-properties structure, \<open>FindMemoryType\<close>
  returns the lowest index below \<open>memoryTypeCount\<close> whose bit is set in the mask and whose
  property flags contain all requested flags, so never a type that meets only one of the
  two conditions; when no type meets both it returns the value \<open>-1\<close> converted to
  \<open>uint32_t\<close>, as an ordinary result, without throwing.
\<close>

theorem FindMemoryType_lowest_or_sentinel:
  assumes "memory_properties_ok mp"
  shows "(\<exists>i < unat (memoryTypeCount mp).
            suitable mp bits props i \<and> (\<forall>j < i. \<not> suitable mp bits props j) \<and>
            FindMemoryType mp bits props = Returned (of_nat i)) \<or>
         ((\<forall>i < unat (memoryTypeCount mp). \<not> suitable mp bits props i) \<and>
          FindMemoryType mp bits props = Returned (- 1))"
  using assms by (rule FindMemoryType_cases)

theorem FindMemoryType_lowest_or_sentinel_witness:
  "memory_properties_ok mp_two \<and> FindMemoryType mp_two 3 host_flags = Returned 1"
proof -
  have ok: "memory_properties_ok mp_two"
    by (simp add: memory_properties_ok_def mp_two_def)
  have c: "unat (memoryTypeCount mp_two) = 2"
    by (simp add: mp_two_def)
  have s0: "\<not> suitable mp_two 3 host_flags 0"
    by code_simp
  have s1: "suitable mp_two 3 host_flags 1"
    by code_simp
  from FindMemoryType_lowest_or_sentinel [OF ok, of 3 host_flags]
  have "FindMemoryType mp_two 3 host_flags = Returned 1"
    using s0 s1 unfolding c by (auto simp: less_2_cases_iff)
  with ok show ?thesis by simp
qed

text \<open>
  C1 as stated fails where no type is suitable: the only type of this device is
  device-local, and the function returns \<open>0xFFFFFFFF\<close> instead of signalling a failure.
\<close>

theorem FindMemoryType_returns_sentinel_counterexample:
  "memory_properties_ok mp_device_local \<and>
   unat (memoryTypeCount mp_device_local) = 1 \<and>
   \<not> suitable mp_device_local 1 host_flags 0 \<and>
   FindMemoryType mp_device_local 1 host_flags = Returned 4294967295"
  by code_simp

subsection \<open>Device and queue selection\<close>

lemmas prog_defs = return_def throw_def abort_def undefined_behaviour_def lift_def bind_def
  if_then_def modify_def printf_def call_def VK_CHECK_RESULT_def Let_def

lemma compute_bit_test:
  "(queueFlags props AND VK_QUEUE_COMPUTE_BIT \<noteq> 0) = compute_capable props"
proof -
  have "(queueFlags props AND 2 ^ 1 = 0) = (\<not> bit (queueFlags props) 1)"
    by (rule and_exp_eq_0_iff_not_bit)
  then show ?thesis
    by (simp add: VK_QUEUE_COMPUTE_BIT_def compute_capable_def)
qed

lemma queue_family_loop_step:
  "queue_family_loop qf i (Suc n) =
     (if has_compute_queue (qf ! i) then i else queue_family_loop qf (Suc i) n)"
  by (simp add: compute_bit_test has_compute_queue_def Let_def)

lemma queue_family_loop_found:
  "i + n = length qf \<Longrightarrow> i \<le> j \<Longrightarrow> j < length qf \<Longrightarrow> has_compute_queue (qf ! j) \<Longrightarrow>
   (\<forall>k. i \<le> k \<and> k < j \<longrightarrow> \<not> has_compute_queue (qf ! k)) \<Longrightarrow>
   queue_family_loop qf i n = j"
proof (induction n arbitrary: i)
  case 0
  then show ?case by simp
next
  case (Suc n)
  show ?case
  proof (cases "i = j")
    case True
    with Suc.prems show ?thesis
      by (simp only: queue_family_loop_step if_True)
  next
    case False
    with Suc.prems have no: "\<not> has_compute_queue (qf ! i)" and lt: "Suc i \<le> j"
      by auto
    have "queue_family_loop qf (Suc i) n = j"
      using Suc.prems lt by (intro Suc.IH) auto
    with no show ?thesis
      by (simp only: queue_family_loop_step if_False)
  qed
qed

lemma queue_family_loop_none:
  "i + n = length qf \<Longrightarrow> (\<forall>k. i \<le> k \<and> k < length qf \<longrightarrow> \<not> has_compute_queue (qf ! k)) \<Longrightarrow>
   queue_family_loop qf i n = length qf"
proof (induction n arbitrary: i)
  case 0
  then show ?case by simp
next
  case (Suc n)
  from Suc.prems have no: "\<not> has_compute_queue (qf ! i)"
    by auto
  have "queue_family_loop qf (Suc i) n = length qf"
    using Suc.prems by (intro Suc.IH) auto
  with no show ?case
    by (simp only: queue_family_loop_step if_False)
qed

lemma main_of_Thrown:
  "Run e app0 = (Thrown what, s) \<Longrightarrow>
   main e = (Returned EXIT_FAILURE, s\<lparr>stdout := stdout s @ [What what]\<rparr>)"
  by (simp add: main_def)

lemma Run_no_device:
  assumes "CreateInstance e (app0\<lparr>buffer_size := word_of_int (16 * kWidth e * kHeight e)\<rparr>) =
             (Returned (), s1)"
    and "devices e = []"
  shows "Run e app0 = (Thrown ''could not find a device with vulkan support'', s1)"
  using assms by (simp add: Run_def FindPhysicalDevice_def bind_def modify_def throw_def)

lemma GetComputeQueueFamilyIndex_none:
  assumes "\<forall>p \<in> set (queue_family_properties e (physical_device s)). \<not> has_compute_queue p"
  shows "GetComputeQueueFamilyIndex e s =
           (Thrown ''could not find a queue family that supports operations'', s)"
proof -
  let ?qf = "queue_family_properties e (physical_device s)"
  have "queue_family_loop ?qf 0 (length ?qf) = length ?qf"
    using assms by (intro queue_family_loop_none) auto
  then show ?thesis
    by (simp add: GetComputeQueueFamilyIndex_def Let_def throw_def)
qed

lemma GetComputeQueueFamilyIndex_first:
  assumes "i < length (queue_family_properties e (physical_device s))"
    and "has_compute_queue (queue_family_properties e (physical_device s) ! i)"
    and "\<forall>j<i. \<not> has_compute_queue (queue_family_properties e (physical_device s) ! j)"
  shows "GetComputeQueueFamilyIndex e s = (Returned (of_nat i), s)"
proof -
  let ?qf = "queue_family_properties e (physical_device s)"
  have "queue_family_loop ?qf 0 (length ?qf) = i"
    using assms by (intro queue_family_loop_found) auto
  with assms(1) show ?thesis
    by (simp add: GetComputeQueueFamilyIndex_def Let_def return_def)
qed

lemma Run_no_compute_queue:
  assumes "CreateInstance e (app0\<lparr>buffer_size := word_of_int (16 * kWidth e * kHeight e)\<rparr>) =
             (Returned (), s1)"
    and "devices e = d # ds"
    and "\<forall>p \<in> set (queue_family_properties e d). \<not> has_compute_queue p"
  shows "Run e app0 =
           (Thrown ''could not find a queue family that supports operations'',
            s1\<lparr>physical_device := d\<rparr>)"
proof -
  have "GetComputeQueueFamilyIndex e (s1\<lparr>physical_device := d\<rparr>) =
          (Thrown ''could not find a queue family that supports operations'',
           s1\<lparr>physical_device := d\<rparr>)"
    using assms(3) by (intro GetComputeQueueFamilyIndex_none) simp
  with assms(1,2) show ?thesis
    by (simp add: Run_def FindPhysicalDevice_def CreateDevice_def bind_def modify_def)
qed

text \<open>
  C5 (as amended). \<open>FindPhysicalDevice\<close> takes the first enumerated device and throws
  when there is none. \<open>GetComputeQueueFamilyIndex\<close> returns the index of the first queue
  family that has at least one queue and the compute bit, and throws when no family has
  both. Both exceptions reach \<open>main\<close>, which prints the message and exits with
  \<open>EXIT_FAILURE\<close>.
\<close>

theorem first_device_first_compute_queue:
  "(devices e = [] \<longrightarrow>
      FindPhysicalDevice e s = (Thrown ''could not find a device with vulkan support'', s)) \<and>
   (\<forall>d ds. devices e = d # ds \<longrightarrow>
      FindPhysicalDevice e s = (Returned (), s\<lparr>physical_device := d\<rparr>)) \<and>
   (\<forall>i. i < length (queue_family_properties e (physical_device s)) \<and>
        has_compute_queue (queue_family_properties e (physical_device s) ! i) \<and>
        (\<forall>j<i. \<not> has_compute_queue (queue_family_properties e (physical_device s) ! j)) \<longrightarrow>
      GetComputeQueueFamilyIndex e s = (Returned (of_nat i), s)) \<and>
   ((\<forall>p \<in> set (queue_family_properties e (physical_device s)). \<not> has_compute_queue p) \<longrightarrow>
      GetComputeQueueFamilyIndex e s =
        (Thrown ''could not find a queue family that supports operations'', s)) \<and>
   (\<forall>s1. CreateInstance e (app0\<lparr>buffer_size := word_of_int (16 * kWidth e * kHeight e)\<rparr>) =
           (Returned (), s1) \<and> devices e = [] \<longrightarrow>
      main e = (Returned EXIT_FAILURE,
                s1\<lparr>stdout := stdout s1 @ [What ''could not find a device with vulkan support'']\<rparr>)) \<and>
   (\<forall>s1 d ds. CreateInstance e (app0\<lparr>buffer_size := word_of_int (16 * kWidth e * kHeight e)\<rparr>) =
           (Returned (), s1) \<and> devices e = d # ds \<and>
           (\<forall>p \<in> set (queue_family_properties e d). \<not> has_compute_queue p) \<longrightarrow>
      main e = (Returned EXIT_FAILURE,
                s1\<lparr>physical_device := d,
                   stdout := stdout s1 @
                     [What ''could not find a queue family that supports operations'']\<rparr>))"
proof (intro conjI allI impI)
  assume "devices e = []"
  then show "FindPhysicalDevice e s = (Thrown ''could not find a device with vulkan support'', s)"
    by (simp add: FindPhysicalDevice_def throw_def)
next
  fix d ds
  assume "devices e = d # ds"
  then show "FindPhysicalDevice e s = (Returned (), s\<lparr>physical_device := d\<rparr>)"
    by (simp add: FindPhysicalDevice_def modify_def)
next
  fix i
  assume "i < length (queue_family_properties e (physical_device s)) \<and>
        has_compute_queue (queue_family_properties e (physical_device s) ! i) \<and>
        (\<forall>j<i. \<not> has_compute_queue (queue_family_properties e (physical_device s) ! j))"
  then show "GetComputeQueueFamilyIndex e s = (Returned (of_nat i), s)"
    by (intro GetComputeQueueFamilyIndex_first) simp_all
next
  assume "\<forall>p \<in> set (queue_family_properties e (physical_device s)). \<not> has_compute_queue p"
  then show "GetComputeQueueFamilyIndex e s =
        (Thrown ''could not find a queue family that supports operations'', s)"
    by (rule GetComputeQueueFamilyIndex_none)
next
  fix s1
  assume "CreateInstance e (app0\<lparr>buffer_size := word_of_int (16 * kWidth e * kHeight e)\<rparr>) =
           (Returned (), s1) \<and> devices e = []"
  then have "Run e app0 = (Thrown ''could not find a device with vulkan support'', s1)"
    by (intro Run_no_device) simp_all
  then show "main e = (Returned EXIT_FAILURE,
                s1\<lparr>stdout := stdout s1 @ [What ''could not find a device with vulkan support'']\<rparr>)"
    by (rule main_of_Thrown)
next
  fix s1 d ds
  assume "CreateInstance e (app0\<lparr>buffer_size := word_of_int (16 * kWidth e * kHeight e)\<rparr>) =
           (Returned (), s1) \<and> devices e = d # ds \<and>
           (\<forall>p \<in> set (queue_family_properties e d). \<not> has_compute_queue p)"
  then have "Run e app0 = (Thrown ''could not find a queue family that supports operations'',
            s1\<lparr>physical_device := d\<rparr>)"
    by (intro Run_no_compute_queue [where ds = ds]) simp_all
  then have "main e = (Returned EXIT_FAILURE,
      (s1\<lparr>physical_device := d\<rparr>)\<lparr>stdout := stdout (s1\<lparr>physical_device := d\<rparr>) @
         [What ''could not find a queue family that supports operations'']\<rparr>)"
    by (rule main_of_Thrown)
  then show "main e = (Returned EXIT_FAILURE,
                s1\<lparr>physical_device := d,
                   stdout := stdout s1 @
                     [What ''could not find a queue family that supports operations'']\<rparr>)"
    by simp
qed

theorem first_device_first_compute_queue_witness:
  "FindPhysicalDevice env_ok app0 = (Returned (), app0\<lparr>physical_device := 5\<rparr>) \<and>
   GetComputeQueueFamilyIndex env_ok (app0\<lparr>physical_device := 5\<rparr>) =
     (Returned 1, app0\<lparr>physical_device := 5\<rparr>) \<and>
   fst (main env_no_device) = Returned EXIT_FAILURE \<and>
   fst (main env_no_compute) = Returned EXIT_FAILURE"
proof -
  let ?s = "app0\<lparr>physical_device := 5\<rparr>"
  note T = first_device_first_compute_queue
  have a: "FindPhysicalDevice env_ok app0 = (Returned (), ?s)"
    using T [of env_ok app0] by (simp add: env_ok_def)
  have f1: "has_compute_queue (queue_family_properties env_ok (physical_device ?s) ! 1)"
    by (simp add: env_ok_def has_compute_queue_def compute_capable_def)
  have f0: "\<not> has_compute_queue (queue_family_properties env_ok (physical_device ?s) ! 0)"
    by (simp add: env_ok_def has_compute_queue_def compute_capable_def)
  have "(1::nat) < length (queue_family_properties env_ok (physical_device ?s))"
    by (simp add: env_ok_def)
  with f0 f1 have b: "GetComputeQueueFamilyIndex env_ok ?s = (Returned (of_nat 1), ?s)"
    using T [of env_ok ?s] by (auto simp: less_Suc_eq)
  have "\<exists>s1. CreateInstance env_no_device
      (app0\<lparr>buffer_size := word_of_int (16 * kWidth env_no_device * kHeight env_no_device)\<rparr>) =
      (Returned (), s1)"
    by (simp add: env_no_device_def env_ok_def CreateInstance_def kEnableValidationLayers_def
        prog_defs VK_EXT_DEBUG_REPORT_EXTENSION_NAME_def VK_SUCCESS_def)
  then obtain s1 where i1: "CreateInstance env_no_device
      (app0\<lparr>buffer_size := word_of_int (16 * kWidth env_no_device * kHeight env_no_device)\<rparr>) =
      (Returned (), s1)"
    by blast
  have "devices env_no_device = []"
    by (simp add: env_no_device_def)
  with T [of env_no_device app0] i1
  have "main env_no_device = (Returned EXIT_FAILURE,
      s1\<lparr>stdout := stdout s1 @ [What ''could not find a device with vulkan support'']\<rparr>)"
    by blast
  then have c: "fst (main env_no_device) = Returned EXIT_FAILURE"
    by simp
  have "\<exists>s2. CreateInstance env_no_compute
      (app0\<lparr>buffer_size := word_of_int (16 * kWidth env_no_compute * kHeight env_no_compute)\<rparr>) =
      (Returned (), s2)"
    by (simp add: env_no_compute_def env_ok_def CreateInstance_def kEnableValidationLayers_def
        prog_defs VK_EXT_DEBUG_REPORT_EXTENSION_NAME_def VK_SUCCESS_def)
  then obtain s2 where i2: "CreateInstance env_no_compute
      (app0\<lparr>buffer_size := word_of_int (16 * kWidth env_no_compute * kHeight env_no_compute)\<rparr>) =
      (Returned (), s2)"
    by blast
  have d2: "devices env_no_compute = 5 # []"
    by (simp add: env_no_compute_def env_ok_def)
  have n2: "\<forall>p \<in> set (queue_family_properties env_no_compute 5). \<not> has_compute_queue p"
    by (simp add: env_no_compute_def has_compute_queue_def compute_capable_def)
  from T [of env_no_compute app0] i2 d2 n2
  have "main env_no_compute = (Returned EXIT_FAILURE,
      s2\<lparr>physical_device := 5, stdout := stdout s2 @
        [What ''could not find a queue family that supports operations'']\<rparr>)"
    by blast
  then have d: "fst (main env_no_compute) = Returned EXIT_FAILURE"
    by simp
  from a b c d show ?thesis by simp
qed

text \<open>
  C5 as stated fails on a compute family without queues: family 0 has the compute bit,
  and the function returns family 1.
\<close>

theorem first_compute_family_skipped_counterexample:
  "compute_capable (queue_family_properties env_empty_family 5 ! 0) \<and>
   fst (GetComputeQueueFamilyIndex env_empty_family (app0\<lparr>physical_device := 5\<rparr>)) = Returned 1"
  by (simp add: env_empty_family_def env_ok_def compute_capable_def
      GetComputeQueueFamilyIndex_def compute_bit_test return_def throw_def)

text \<open>
  C8. \<open>GetComputeQueueFamilyIndex\<close> leaves the state of the application as it is, so a
  second run right after the first returns the same; and its result is a function of the
  enumeration of queue families alone.
\<close>

theorem GetComputeQueueFamilyIndex_deterministic:
  "snd (GetComputeQueueFamilyIndex e s) = s \<and>
   GetComputeQueueFamilyIndex e (snd (GetComputeQueueFamilyIndex e s)) =
     GetComputeQueueFamilyIndex e s \<and>
   (queue_family_properties e' (physical_device s') =
      queue_family_properties e (physical_device s) \<longrightarrow>
    fst (GetComputeQueueFamilyIndex e' s') = fst (GetComputeQueueFamilyIndex e s))"
  by (simp add: GetComputeQueueFamilyIndex_def Let_def throw_def return_def)

theorem GetComputeQueueFamilyIndex_deterministic_witness:
  "queue_family_properties env_release (physical_device app0) =
     queue_family_properties env_ok (physical_device app0) \<and>
   fst (GetComputeQueueFamilyIndex env_release app0) =
     fst (GetComputeQueueFamilyIndex env_ok app0)"
proof -
  have q: "queue_family_properties env_release (physical_device app0) =
     queue_family_properties env_ok (physical_device app0)"
    by (simp add: env_release_def)
  with GetComputeQueueFamilyIndex_deterministic [of env_ok app0 env_release app0]
  show ?thesis by simp
qed

subsection \<open>Single-precision rounding\<close>

lemma pow2_powi: "pow2 e = 2 powi e"
  by (simp add: pow2_def power_int_def field_simps)

lemma pow2_pos: "0 < pow2 e"
  by (simp add: pow2_powi)

lemma pow2_add: "pow2 (a + b) = pow2 a * pow2 b"
  by (simp add: pow2_powi power_int_add)

lemma pow2_mono: "a \<le> b \<Longrightarrow> pow2 a \<le> pow2 b"
  by (simp add: pow2_powi power_int_increasing)

lemma pow2_less_cancel: "pow2 a < pow2 b \<Longrightarrow> a < b"
  using pow2_mono [of b a] by (cases "a < b") auto

lemma pow2_nonneg_exp: "0 \<le> e \<Longrightarrow> pow2 e = of_int (2 ^ nat e)"
  by (simp add: pow2_def)

lemma pow2_neg: "pow2 (- e) = 1 / pow2 e"
  by (simp add: pow2_powi power_int_minus field_simps)

lemma ilog2_bounds:
  assumes "0 < x"
  shows "pow2 (ilog2 x) \<le> x \<and> x < pow2 (ilog2 x + 1)"
proof (cases "1 \<le> x")
  case True
  define n where "n = \<lfloor>x\<rfloor>"
  from True have n: "1 \<le> n" by (simp add: n_def le_floor_iff)
  then have b: "2 ^ nat (bitlen n - 1) \<le> n" "n < 2 ^ nat (bitlen n)"
    using bitlen_bounds [of n] by simp_all
  from n have l: "1 \<le> bitlen n"
    by (simp add: bitlen_alt_def)
  have "(of_int (2 ^ nat (bitlen n - 1)) :: rat) \<le> of_int n"
    using b(1) by (simp only: of_int_le_iff)
  also have "\<dots> \<le> x" by (simp add: n_def)
  finally have lo: "pow2 (bitlen n - 1) \<le> x"
    using l by (simp add: pow2_nonneg_exp)
  have "x < of_int (n + 1)"
    unfolding n_def by linarith
  also have "\<dots> \<le> (of_int (2 ^ nat (bitlen n)) :: rat)"
    using b(2) by (simp only: of_int_le_iff)
  finally have hi: "x < pow2 (bitlen n)"
    using l by (simp add: pow2_nonneg_exp)
  from lo hi True show ?thesis
    by (simp add: ilog2_def n_def)
next
  case False
  define y where "y = 1 / x"
  define m where "m = \<lceil>y\<rceil> - 1"
  from False assms have y: "1 < y" by (simp add: y_def)
  then have m: "1 \<le> m" by (simp add: m_def less_ceiling_iff)
  then have b: "2 ^ nat (bitlen m - 1) \<le> m" "m < 2 ^ nat (bitlen m)"
    using bitlen_bounds [of m] by simp_all
  from m have l: "1 \<le> bitlen m"
    by (simp add: bitlen_alt_def)
  have my: "of_int m < y"
    unfolding m_def by linarith
  have "y \<le> of_int (m + 1)"
    unfolding m_def by linarith
  also have "\<dots> \<le> (of_int (2 ^ nat (bitlen m)) :: rat)"
    using b(2) by (simp only: of_int_le_iff)
  finally have "y \<le> pow2 (bitlen m)"
    using l by (simp add: pow2_nonneg_exp)
  then have lo: "pow2 (- bitlen m) \<le> x"
    using assms pow2_pos [of "bitlen m"] by (simp add: y_def pow2_neg field_simps)
  have "(of_int (2 ^ nat (bitlen m - 1)) :: rat) \<le> of_int m"
    using b(1) by (simp only: of_int_le_iff)
  also note my
  finally have "pow2 (bitlen m - 1) < y"
    using l by (simp add: pow2_nonneg_exp)
  then have "x < 1 / pow2 (bitlen m - 1)"
    using assms pow2_pos [of "bitlen m - 1"] by (simp add: y_def field_simps)
  then have hi: "x < pow2 (- bitlen m + 1)"
    using pow2_neg [of "bitlen m - 1"] by simp
  from lo hi False show ?thesis
    by (simp add: ilog2_def m_def y_def)
qed

lemma rnd_even_of_int: "rnd_even (of_int n) = n"
  by (simp add: rnd_even_def)

lemma rnd_even_le: "x \<le> of_int n \<Longrightarrow> rnd_even x \<le> n"
proof -
  assume a: "x \<le> of_int n"
  show ?thesis
  proof (cases "x = of_int n")
    case True
    then show ?thesis by (simp add: rnd_even_of_int)
  next
    case False
    with a have "x < of_int n" by simp
    then have "\<lfloor>x\<rfloor> < n" by (simp add: floor_less_iff)
    then have "\<lfloor>x\<rfloor> + 1 \<le> n" by simp
    then show ?thesis
      by (simp add: rnd_even_def Let_def)
  qed
qed

lemma rnd_even_gt_half: "of_int n + 1 / 2 < x \<Longrightarrow> n + 1 \<le> rnd_even x"
proof -
  assume a: "of_int n + 1 / 2 < x"
  then have "of_int n \<le> x" by simp
  then have f: "n \<le> \<lfloor>x\<rfloor>" by (simp add: le_floor_iff)
  show ?thesis
  proof (cases "n = \<lfloor>x\<rfloor>")
    case True
    with a have "1 / 2 < x - of_int \<lfloor>x\<rfloor>" by simp
    with True show ?thesis
      by (simp add: rnd_even_def Let_def)
  next
    case False
    with f have "n + 1 \<le> \<lfloor>x\<rfloor>" by simp
    then show ?thesis
      by (simp add: rnd_even_def Let_def)
  qed
qed

lemma pow2_numeral_24: "pow2 24 = 2 ^ 24"
  by (simp add: pow2_def)

lemma ilog2_less_24:
  assumes "0 < x" "x < 2 ^ 24"
  shows "ilog2 x < 24"
proof -
  have "pow2 (ilog2 x) \<le> x" using ilog2_bounds [OF assms(1)] by simp
  with assms(2) have "pow2 (ilog2 x) < pow2 24" by (simp add: pow2_numeral_24)
  then show ?thesis by (rule pow2_less_cancel)
qed

lemma ilog2_lower:
  assumes "0 < x" "pow2 k \<le> x"
  shows "k \<le> ilog2 x"
proof -
  have "x < pow2 (ilog2 x + 1)" using ilog2_bounds [OF assms(1)] by simp
  with assms(2) have "pow2 k < pow2 (ilog2 x + 1)" by simp
  then have "k < ilog2 x + 1" by (rule pow2_less_cancel)
  then show ?thesis by simp
qed

text \<open>Rounding a positive value below \<open>2 ^ 24\<close> that is not subnormal.\<close>

lemma round_float32_normal:
  assumes "0 < x" "x < 2 ^ 24" "pow2 (- 126) \<le> x"
  shows "round_float32 x =
           Finite (of_int (rnd_even (x * pow2 (23 - ilog2 x))) * pow2 (ilog2 x - 23))"
proof -
  define e where "e = ilog2 x"
  have e24: "e < 24" unfolding e_def using assms(1,2) by (rule ilog2_less_24)
  have e126: "- 126 \<le> e" unfolding e_def using assms(1,3) by (rule ilog2_lower)
  then have mx: "max (e - 23) (- 149) = e - 23" by simp
  have inv: "x / pow2 (e - 23) = x * pow2 (23 - e)"
    using pow2_neg [of "e - 23"] by simp
  have "x < pow2 (e + 1)" unfolding e_def using ilog2_bounds [OF assms(1)] by simp
  then have "x * pow2 (23 - e) < pow2 (e + 1) * pow2 (23 - e)"
    using pow2_pos [of "23 - e"] by simp
  also have "\<dots> = pow2 24" by (simp add: pow2_add [symmetric])
  finally have "x * pow2 (23 - e) \<le> of_int (2 ^ 24)"
    by (simp add: pow2_numeral_24)
  then have r: "rnd_even (x * pow2 (23 - e)) \<le> 2 ^ 24"
    by (rule rnd_even_le)
  have "pow2 (e - 23) \<le> pow2 0" using e24 by (intro pow2_mono) simp
  then have q1: "pow2 (e - 23) \<le> 1" by (simp add: pow2_def)
  have "of_int (rnd_even (x * pow2 (23 - e))) * pow2 (e - 23) \<le> (2 ^ 24 :: rat) * 1"
  proof (rule mult_mono)
    show "rat_of_int (rnd_even (x * pow2 (23 - e))) \<le> 2 ^ 24"
      using r by (metis of_int_le_iff of_int_numeral of_int_power)
  qed (use q1 pow2_pos [of "e - 23"] in simp_all)
  then have "of_int (rnd_even (x * pow2 (23 - e))) * pow2 (e - 23) < (2 ^ 128 :: rat)"
    by simp
  then show ?thesis
    using assms(1) mx inv
    by (simp add: round_float32_def Let_def e_def [symmetric] not_le [symmetric])
qed

lemma pow2_cancel: "pow2 (23 - e) * pow2 (e - 23) = 1"
  by (simp add: pow2_add [symmetric] pow2_def)

lemma int_to_float_exact:
  assumes "0 < n" "n < 2 ^ 24"
  shows "int_to_float n = Finite (of_int n)"
proof -
  define x :: rat where "x = of_int n"
  define e where "e = ilog2 x"
  from assms have x: "0 < x" "x < 2 ^ 24" "1 \<le> x"
    by (simp_all add: x_def)
  have "pow2 (- 126) \<le> pow2 0" by (intro pow2_mono) simp
  with x(3) have sub: "pow2 (- 126) \<le> x" by (simp add: pow2_def)
  have "pow2 0 \<le> x" using x(3) by (simp add: pow2_def)
  with x(1) have e0: "0 \<le> e" unfolding e_def by (rule ilog2_lower)
  have e24: "e < 24" unfolding e_def using x(1,2) by (rule ilog2_less_24)
  then have "pow2 (23 - e) = of_int (2 ^ nat (23 - e))"
    by (intro pow2_nonneg_exp) simp
  then have "x * pow2 (23 - e) = of_int (n * 2 ^ nat (23 - e))"
    by (simp add: x_def)
  then have "rnd_even (x * pow2 (23 - e)) = n * 2 ^ nat (23 - e)"
    by (simp only: rnd_even_of_int)
  then have "of_int (rnd_even (x * pow2 (23 - e))) * pow2 (e - 23) =
      x * (pow2 (23 - e) * pow2 (e - 23))"
    using \<open>pow2 (23 - e) = of_int (2 ^ nat (23 - e))\<close> by (simp add: x_def)
  then have "of_int (rnd_even (x * pow2 (23 - e))) * pow2 (e - 23) = x"
    by (simp only: pow2_cancel mult_1_right)
  with round_float32_normal [OF x(1,2) sub] show ?thesis
    by (simp add: int_to_float_def e_def x_def)
qed

lemma round_quotient_ceiling:
  assumes "0 < w" "w < 2 ^ 24" "0 < g" "g < 2 ^ 24"
  shows "\<exists>y. round_float32 (of_int w / of_int g) = Finite y \<and>
             \<lceil>y\<rceil> = \<lceil>(of_int w / of_int g :: rat)\<rceil>"
proof -
  define x :: rat where "x = of_int w / of_int g"
  define e where "e = ilog2 x"
  define c where "c = \<lceil>x\<rceil>"
  define T where "T = pow2 (23 - e)"
  define m where "m = rnd_even (x * T)"
  have gw: "(0::rat) < of_int g" "(0::rat) < of_int w" "(1::rat) \<le> of_int g"
    using assms by simp_all
  have w24: "(of_int w :: rat) < 2 ^ 24" "(of_int g :: rat) < 2 ^ 24"
    using assms by simp_all
  have x0: "0 < x" using gw by (simp add: x_def)
  have "x \<le> of_int w" using gw by (simp add: x_def field_simps mult_le_cancel_left1)
  with w24 have x24: "x < 2 ^ 24" by simp
  have "1 / 2 ^ 24 < 1 / (of_int g :: rat)"
    using gw w24 by (simp add: field_simps)
  also have "\<dots> \<le> x" using gw assms(1) by (simp add: x_def field_simps)
  finally have "pow2 (- 24) \<le> x" by (simp add: pow2_def)
  moreover have "pow2 (- 126) \<le> pow2 (- 24)" by (intro pow2_mono) simp
  ultimately have sub: "pow2 (- 126) \<le> x" by simp
  have e24: "e < 24" unfolding e_def using x0 x24 by (rule ilog2_less_24)
  then have T: "T = of_int (2 ^ nat (23 - e))"
    unfolding T_def by (intro pow2_nonneg_exp) simp
  have Tpos: "0 < T" by (simp add: T_def pow2_pos)
  have y: "round_float32 x = Finite (of_int m * pow2 (e - 23))"
    using round_float32_normal [OF x0 x24 sub] by (simp add: e_def m_def T_def)
  have cancel: "a * T * pow2 (e - 23) = a" for a
    using pow2_cancel [of e] by (simp add: T_def mult.assoc)
  \<comment> \<open>the rounded quotient does not exceed the ceiling\<close>
  have "x \<le> of_int c" by (simp add: c_def)
  then have "x * T \<le> of_int c * T" using Tpos by simp
  then have "x * T \<le> of_int (c * 2 ^ nat (23 - e))" by (simp add: T)
  then have "m \<le> c * 2 ^ nat (23 - e)" unfolding m_def by (rule rnd_even_le)
  then have "(of_int m :: rat) \<le> of_int (c * 2 ^ nat (23 - e))" by (simp only: of_int_le_iff)
  then have "of_int m \<le> of_int c * T" by (simp add: T)
  then have "of_int m * pow2 (e - 23) \<le> of_int c * T * pow2 (e - 23)"
    using pow2_pos [of "e - 23"] by simp
  then have upper: "of_int m * pow2 (e - 23) \<le> of_int c" by (simp only: cancel)
  \<comment> \<open>and it stays above the integer below\<close>
  have "of_int (c - 1) < x" unfolding c_def by linarith
  then have "of_int (c - 1) * of_int g < (of_int w :: rat)"
    using gw by (simp add: x_def field_simps)
  then have "(c - 1) * g < w" by (simp only: of_int_less_iff flip: of_int_mult)
  then have "1 \<le> w - (c - 1) * g" by simp
  then have "(1::rat) \<le> of_int (w - (c - 1) * g)" by (simp only: of_int_1_le_iff)
  then have gap: "1 / of_int g \<le> x - of_int (c - 1)"
    using gw by (simp add: x_def field_simps)
  have "pow2 e \<le> x" unfolding e_def using ilog2_bounds [OF x0] by simp
  then have "of_int g * pow2 e \<le> of_int w" using gw by (simp add: x_def field_simps)
  with w24 have "of_int g * pow2 e < pow2 24" by (simp add: pow2_numeral_24)
  then have "of_int g * pow2 e * pow2 (- e) < pow2 24 * pow2 (- e)"
    using pow2_pos [of "- e"] by simp
  then have "of_int g < pow2 (24 - e)"
    by (simp add: mult.assoc pow2_add [symmetric]) (simp add: pow2_def)
  also have "pow2 (24 - e) = 2 * T"
    using pow2_add [of 1 "23 - e"] by (simp add: T_def pow2_def)
  finally have half: "1 / 2 < T / of_int g" using gw by (simp add: field_simps)
  have "1 / of_int g * T \<le> (x - of_int (c - 1)) * T"
    using gap Tpos by (intro mult_right_mono) simp_all
  then have "T / of_int g \<le> (x - of_int (c - 1)) * T" by simp
  with half have "1 / 2 < (x - of_int (c - 1)) * T" by (rule less_le_trans)
  then have "of_int ((c - 1) * 2 ^ nat (23 - e)) + 1 / 2 < x * T"
    by (simp add: T algebra_simps)
  then have "(c - 1) * 2 ^ nat (23 - e) + 1 \<le> m" unfolding m_def by (rule rnd_even_gt_half)
  then have "(c - 1) * 2 ^ nat (23 - e) < m" by simp
  then have "(of_int ((c - 1) * 2 ^ nat (23 - e)) :: rat) < of_int m" by (simp only: of_int_less_iff)
  then have "of_int (c - 1) * T < of_int m" by (simp add: T)
  then have "of_int (c - 1) * T * pow2 (e - 23) < of_int m * pow2 (e - 23)"
    using pow2_pos [of "e - 23"] by simp
  then have lower: "of_int (c - 1) < of_int m * pow2 (e - 23)" by (simp only: cancel)
  from lower upper have "\<lceil>of_int m * pow2 (e - 23)\<rceil> = c"
    by (intro ceiling_unique) simp_all
  with y show ?thesis by (simp add: x_def c_def)
qed

subsection \<open>Dispatch group counts\<close>

lemma truncate_of_int: "truncate_toward_zero (of_int c) = c"
  by (simp add: truncate_toward_zero_def)

lemma ceiling_quotient_le:
  assumes "0 < w" "0 < g"
  shows "\<lceil>(of_int w / of_int g :: rat)\<rceil> \<le> w" "0 < \<lceil>(of_int w / of_int g :: rat)\<rceil>"
proof -
  have "(of_int w / of_int g :: rat) \<le> of_int w"
    using assms by (simp add: field_simps mult_le_cancel_left1)
  then show "\<lceil>(of_int w / of_int g :: rat)\<rceil> \<le> w"
    by (simp add: ceiling_le_iff)
  have "(0::rat) < of_int w / of_int g" using assms by simp
  then show "0 < \<lceil>(of_int w / of_int g :: rat)\<rceil>" by simp
qed

lemma group_count_ceiling:
  assumes "0 < w" "w < 2 ^ 24" "0 < g" "g < 2 ^ 24"
  shows "group_count w g = Returned (word_of_int \<lceil>(of_int w / of_int g :: rat)\<rceil>)"
proof -
  obtain y where y: "round_float32 (of_int w / of_int g) = Finite y"
    "\<lceil>y\<rceil> = \<lceil>(of_int w / of_int g :: rat)\<rceil>"
    using round_quotient_ceiling [OF assms] by blast
  define c where "c = \<lceil>y\<rceil>"
  have "c \<le> w" "0 < c"
    using ceiling_quotient_le [OF assms(1,3)] by (simp_all only: c_def y(2))
  with assms(2) have "0 \<le> c" "c < 2 ^ 32"
    by simp_all
  then have c: "0 \<le> \<lceil>y\<rceil>" "\<lceil>y\<rceil> < 2 ^ 32"
    by (simp_all only: c_def)
  have "float_div (int_to_float w) (int_to_float g) = Finite y"
    using assms by (simp add: int_to_float_exact y(1))
  then have "group_count w g = float_to_unsigned (Finite (of_int \<lceil>y\<rceil>))"
    by (simp add: group_count_def)
  also have "\<dots> = Returned (word_of_int \<lceil>y\<rceil>)"
    using c by (simp add: truncate_of_int)
  finally show ?thesis by (simp only: y(2))
qed

lemma ceiling_quotient_smallest:
  assumes "0 < g"
  shows "w \<le> \<lceil>(of_int w / of_int g :: rat)\<rceil> * g"
    and "w \<le> n * g \<Longrightarrow> \<lceil>(of_int w / of_int g :: rat)\<rceil> \<le> n"
proof -
  have g: "(0::rat) < of_int g" using assms by simp
  have "(of_int w / of_int g :: rat) \<le> of_int \<lceil>(of_int w / of_int g :: rat)\<rceil>"
    by (rule le_of_int_ceiling)
  then have "(of_int w :: rat) \<le> of_int \<lceil>(of_int w / of_int g :: rat)\<rceil> * of_int g"
    using g by (simp only: pos_divide_le_eq)
  then have "(of_int w :: rat) \<le> of_int (\<lceil>(of_int w / of_int g :: rat)\<rceil> * g)"
    by simp
  then show "w \<le> \<lceil>(of_int w / of_int g :: rat)\<rceil> * g"
    by (simp only: of_int_le_iff)
  assume "w \<le> n * g"
  then have "(of_int w :: rat) \<le> of_int (n * g)" by (simp only: of_int_le_iff)
  then have "(of_int w :: rat) \<le> of_int n * of_int g"
    by simp
  then have "(of_int w / of_int g :: rat) \<le> of_int n"
    using g by (simp only: pos_divide_le_eq)
  then show "\<lceil>(of_int w / of_int g :: rat)\<rceil> \<le> n"
    by (simp add: ceiling_le_iff)
qed

lemma bind_ReturnedD:
  "bind m f s = (Returned x, s') \<Longrightarrow> \<exists>y s1. m s = (Returned y, s1) \<and> f y s1 = (Returned x, s')"
  by (auto simp: bind_def split: prod.splits result.splits)

lemma VK_CHECK_RESULT_calls:
  "VK_CHECK_RESULT e f s = (Returned x, s') \<Longrightarrow> calls s' = calls s @ [f]"
  by (auto simp: prog_defs split: if_splits)

lemma bind_lift_Returned: "bind (lift (Returned v)) f = f v"
  by (simp add: bind_def lift_def fun_eq_iff)

lemma bind_call: "bind (call c) f s = f () (s\<lparr>calls := calls s @ [c]\<rparr>)"
  by (simp add: bind_def call_def modify_def)

lemma steps_ConsE:
  assumes "steps (p # ps) s = (Returned x, s')"
  obtains s1 where "p s = (Returned (), s1)" "steps ps s1 = (Returned x, s')"
  using assms by (auto dest: bind_ReturnedD)

lemma steps_NilD: "steps [] s = (Returned x, s') \<Longrightarrow> s' = s"
  by (simp add: return_def)

lemma CreateCommandBuffer_calls:
  assumes x: "group_count (kWidth e) (kWorkgroupeSize e) = Returned x"
    and y: "group_count (kHeight e) (kWorkgroupeSize e) = Returned y"
    and r: "CreateCommandBuffer e s = (Returned (), s')"
  shows "calls s' = calls s @
           [vkCreateCommandPool (queue_family_index s), vkAllocateCommandBuffers,
            vkBeginCommandBuffer, vkCmdBindPipeline, vkCmdBindDescriptorSets,
            vkCmdDispatch x y 1, vkEndCommandBuffer]"
proof -
  note r [unfolded CreateCommandBuffer_def]
  then obtain s1 s2 s3 s4 s5 s6 s7
    where 1: "VK_CHECK_RESULT e (vkCreateCommandPool (queue_family_index s)) s = (Returned (), s1)"
      and 2: "VK_CHECK_RESULT e vkAllocateCommandBuffers s1 = (Returned (), s2)"
      and 3: "VK_CHECK_RESULT e vkBeginCommandBuffer s2 = (Returned (), s3)"
      and 4: "call vkCmdBindPipeline s3 = (Returned (), s4)"
      and 5: "call vkCmdBindDescriptorSets s4 = (Returned (), s5)"
      and 6: "bind (lift (group_count (kWidth e) (kWorkgroupeSize e))) (\<lambda>x.
                bind (lift (group_count (kHeight e) (kWorkgroupeSize e))) (\<lambda>y.
                  call (vkCmdDispatch x y 1))) s5 = (Returned (), s6)"
      and 7: "VK_CHECK_RESULT e vkEndCommandBuffer s6 = (Returned (), s7)"
      and 8: "steps [] s7 = (Returned (), s')"
    by (elim steps_ConsE)
  from 6 have 6: "call (vkCmdDispatch x y 1) s5 = (Returned (), s6)"
    by (simp add: x y bind_lift_Returned)
  from 4 5 6 have "calls s6 = calls s3 @
      [vkCmdBindPipeline, vkCmdBindDescriptorSets, vkCmdDispatch x y 1]"
    by (auto simp: call_def modify_def)
  moreover note VK_CHECK_RESULT_calls [OF 1] VK_CHECK_RESULT_calls [OF 2]
    VK_CHECK_RESULT_calls [OF 3] VK_CHECK_RESULT_calls [OF 7] steps_NilD [OF 8]
  ultimately show ?thesis
    by simp
qed

text \<open>
  C3 (as amended). For width, height and work-group size that are positive and below
  \<open>2 ^ 24\<close> (where the conversion to \<open>float\<close> is exact), the group counts are the
  ceilings of the quotients: the smallest integers whose product with the work-group
  size reaches the width and the height. \<open>CreateCommandBuffer\<close> records
  them in \<open>vkCmdDispatch\<close> with 1 as the third count, after binding the pipeline and
  the descriptor set. Width 3200 in groups of 32 gives 100, width 3201 gives 101.
\<close>

theorem dispatch_group_counts:
  assumes "0 < kWidth e" "kWidth e < 2 ^ 24" "0 < kHeight e" "kHeight e < 2 ^ 24"
    and "0 < kWorkgroupeSize e" "kWorkgroupeSize e < 2 ^ 24"
  shows "(\<exists>groupsX groupsY.
           group_count (kWidth e) (kWorkgroupeSize e) = Returned (word_of_int groupsX) \<and>
           group_count (kHeight e) (kWorkgroupeSize e) = Returned (word_of_int groupsY) \<and>
           0 < groupsX \<and> groupsX < 2 ^ 32 \<and> 0 < groupsY \<and> groupsY < 2 ^ 32 \<and>
           kWidth e \<le> groupsX * kWorkgroupeSize e \<and>
           (\<forall>n. kWidth e \<le> n * kWorkgroupeSize e \<longrightarrow> groupsX \<le> n) \<and>
           kHeight e \<le> groupsY * kWorkgroupeSize e \<and>
           (\<forall>n. kHeight e \<le> n * kWorkgroupeSize e \<longrightarrow> groupsY \<le> n) \<and>
           (\<forall>s s'. CreateCommandBuffer e s = (Returned (), s') \<longrightarrow>
              calls s' = calls s @
                [vkCreateCommandPool (queue_family_index s), vkAllocateCommandBuffers,
                 vkBeginCommandBuffer, vkCmdBindPipeline, vkCmdBindDescriptorSets,
                 vkCmdDispatch (word_of_int groupsX) (word_of_int groupsY) 1,
                 vkEndCommandBuffer])) \<and>
         group_count 3200 32 = Returned 100 \<and> group_count 3201 32 = Returned 101"
proof -
  define groupsX where "groupsX = \<lceil>(of_int (kWidth e) / of_int (kWorkgroupeSize e) :: rat)\<rceil>"
  define groupsY where "groupsY = \<lceil>(of_int (kHeight e) / of_int (kWorkgroupeSize e) :: rat)\<rceil>"
  have x: "group_count (kWidth e) (kWorkgroupeSize e) = Returned (word_of_int groupsX)"
    unfolding groupsX_def using assms(1,2,5,6) by (rule group_count_ceiling)
  have y: "group_count (kHeight e) (kWorkgroupeSize e) = Returned (word_of_int groupsY)"
    unfolding groupsY_def using assms(3,4,5,6) by (rule group_count_ceiling)
  have px: "0 < groupsX" "groupsX \<le> kWidth e"
    unfolding groupsX_def using ceiling_quotient_le [OF assms(1,5)] by simp_all
  have py: "0 < groupsY" "groupsY \<le> kHeight e"
    unfolding groupsY_def using ceiling_quotient_le [OF assms(3,5)] by simp_all
  from px(2) py(2) assms(2,4) have lt: "groupsX < 2 ^ 32" "groupsY < 2 ^ 32"
    by simp_all
  have mx: "kWidth e \<le> groupsX * kWorkgroupeSize e"
    "\<forall>n. kWidth e \<le> n * kWorkgroupeSize e \<longrightarrow> groupsX \<le> n"
    unfolding groupsX_def using ceiling_quotient_smallest [OF assms(5)] by blast+
  have my: "kHeight e \<le> groupsY * kWorkgroupeSize e"
    "\<forall>n. kHeight e \<le> n * kWorkgroupeSize e \<longrightarrow> groupsY \<le> n"
    unfolding groupsY_def using ceiling_quotient_smallest [OF assms(5)] by blast+
  have cb: "\<forall>s s'. CreateCommandBuffer e s = (Returned (), s') \<longrightarrow>
              calls s' = calls s @
                [vkCreateCommandPool (queue_family_index s), vkAllocateCommandBuffers,
                 vkBeginCommandBuffer, vkCmdBindPipeline, vkCmdBindDescriptorSets,
                 vkCmdDispatch (word_of_int groupsX) (word_of_int groupsY) 1,
                 vkEndCommandBuffer]"
    using CreateCommandBuffer_calls [OF x y] by blast
  from x y px(1) py(1) lt mx my cb
  have general: "\<exists>groupsX groupsY.
           group_count (kWidth e) (kWorkgroupeSize e) = Returned (word_of_int groupsX) \<and>
           group_count (kHeight e) (kWorkgroupeSize e) = Returned (word_of_int groupsY) \<and>
           0 < groupsX \<and> groupsX < 2 ^ 32 \<and> 0 < groupsY \<and> groupsY < 2 ^ 32 \<and>
           kWidth e \<le> groupsX * kWorkgroupeSize e \<and>
           (\<forall>n. kWidth e \<le> n * kWorkgroupeSize e \<longrightarrow> groupsX \<le> n) \<and>
           kHeight e \<le> groupsY * kWorkgroupeSize e \<and>
           (\<forall>n. kHeight e \<le> n * kWorkgroupeSize e \<longrightarrow> groupsY \<le> n) \<and>
           (\<forall>s s'. CreateCommandBuffer e s = (Returned (), s') \<longrightarrow>
              calls s' = calls s @
                [vkCreateCommandPool (queue_family_index s), vkAllocateCommandBuffers,
                 vkBeginCommandBuffer, vkCmdBindPipeline, vkCmdBindDescriptorSets,
                 vkCmdDispatch (word_of_int groupsX) (word_of_int groupsY) 1,
                 vkEndCommandBuffer])"
    by blast
  have "group_count 3200 32 = Returned 100 \<and> group_count 3201 32 = Returned 101"
    by code_simp
  with general show ?thesis
    by (simp only: simp_thms)
qed

theorem dispatch_group_counts_witness:
  "0 < kWidth env_ok \<and> kWidth env_ok < 2 ^ 24 \<and> 0 < kHeight env_ok \<and> kHeight env_ok < 2 ^ 24 \<and>
   0 < kWorkgroupeSize env_ok \<and> kWorkgroupeSize env_ok < 2 ^ 24 \<and>
   group_count (kWidth env_ok) (kWorkgroupeSize env_ok) = Returned 2 \<and>
   group_count (kHeight env_ok) (kWorkgroupeSize env_ok) = Returned 1"
proof -
  have h: "0 < kWidth env_ok" "kWidth env_ok < 2 ^ 24" "0 < kHeight env_ok"
    "kHeight env_ok < 2 ^ 24" "0 < kWorkgroupeSize env_ok" "kWorkgroupeSize env_ok < 2 ^ 24"
    by (simp_all add: env_ok_def)
  from dispatch_group_counts [OF h] obtain groupsX groupsY where
    g: "group_count (kWidth env_ok) (kWorkgroupeSize env_ok) = Returned (word_of_int groupsX)"
       "group_count (kHeight env_ok) (kWorkgroupeSize env_ok) = Returned (word_of_int groupsY)"
    and x: "kWidth env_ok \<le> groupsX * kWorkgroupeSize env_ok"
       "\<forall>n. kWidth env_ok \<le> n * kWorkgroupeSize env_ok \<longrightarrow> groupsX \<le> n"
    and y: "kHeight env_ok \<le> groupsY * kWorkgroupeSize env_ok"
       "\<forall>n. kHeight env_ok \<le> n * kWorkgroupeSize env_ok \<longrightarrow> groupsY \<le> n"
    by blast
  from x(1) x(2) [rule_format, of 2] have "groupsX = 2"
    by (simp add: env_ok_def)
  moreover from y(1) y(2) [rule_format, of 1] have "groupsY = 1"
    by (simp add: env_ok_def)
  ultimately show ?thesis
    using g h by simp
qed

text \<open>
  C3 as stated, for every positive width, fails beyond the 24 bits of a \<open>float\<close>
  significand: 33554433 is converted to 33554432.0f, and that many groups of size 1 do
  not cover the width.
\<close>

theorem dispatch_group_counts_counterexample:
  "group_count 33554433 1 = Returned 33554432 \<and>
   \<not> (33554433 \<le> uint (33554432 :: u32) * 1)"
  by code_simp

subsection \<open>Readback conversion\<close>

lemma rnd_even_ge: "of_int n \<le> x \<Longrightarrow> n \<le> rnd_even x"
proof -
  assume "of_int n \<le> x"
  then have "n \<le> \<lfloor>x\<rfloor>" by (simp add: le_floor_iff)
  then show ?thesis
    by (simp add: rnd_even_def Let_def)
qed

text \<open>Rounding does not go below a power of two that the value has reached.\<close>

lemma round_float32_lower:
  assumes "0 \<le> k" "pow2 k \<le> x"
  shows "round_float32 x = PlusInf \<or> (\<exists>y. round_float32 x = Finite y \<and> pow2 k \<le> y)"
proof -
  have x0: "0 < x" using assms(2) pow2_pos [of k] by simp
  define e where "e = ilog2 x"
  have ke: "k \<le> e" unfolding e_def using x0 assms(2) by (rule ilog2_lower)
  with assms(1) have mx: "max (e - 23) (- 149) = e - 23" by simp
  define m where "m = rnd_even (x / pow2 (e - 23))"
  have "pow2 e \<le> x" unfolding e_def using ilog2_bounds [OF x0] by simp
  then have "pow2 e * pow2 (23 - e) \<le> x * pow2 (23 - e)"
    using pow2_pos [of "23 - e"] by simp
  then have "pow2 23 \<le> x / pow2 (e - 23)"
    using pow2_neg [of "e - 23"] by (simp add: pow2_add [symmetric])
  then have "of_int (2 ^ 23) \<le> x / pow2 (e - 23)"
    by (simp add: pow2_def)
  then have "2 ^ 23 \<le> m" unfolding m_def by (rule rnd_even_ge)
  then have "(of_int (2 ^ 23) :: rat) \<le> of_int m" by (simp only: of_int_le_iff)
  then have "pow2 23 \<le> of_int m" by (simp add: pow2_def)
  then have "pow2 23 * pow2 (e - 23) \<le> of_int m * pow2 (e - 23)"
    using pow2_pos [of "e - 23"] by simp
  then have "pow2 e \<le> of_int m * pow2 (e - 23)"
    by (simp add: pow2_add [symmetric])
  moreover have "pow2 k \<le> pow2 e" using ke by (rule pow2_mono)
  ultimately have "pow2 k \<le> of_int m * pow2 (e - 23)" by simp
  then show ?thesis
    using x0 mx by (simp add: round_float32_def Let_def e_def [symmetric] m_def)
qed

lemma channel_byte_above:
  assumes "256 \<le> 255 * v"
  shows "channel_byte (Finite v) = Undefined"
proof -
  have "pow2 8 \<le> 255 * v" using assms by (simp add: pow2_def)
  with round_float32_lower [of 8 "255 * v"]
  consider "round_float32 (255 * v) = PlusInf"
    | y where "round_float32 (255 * v) = Finite y" "pow2 8 \<le> y"
    by auto
  then show ?thesis
  proof cases
    case 1
    then show ?thesis by (simp add: channel_byte_def)
  next
    case 2
    then have "256 \<le> y" by (simp add: pow2_def)
    then have "256 \<le> \<lfloor>y\<rfloor>" by (simp add: le_floor_iff)
    with \<open>256 \<le> y\<close> have "\<not> truncate_toward_zero y < 2 ^ LENGTH(8)"
      by (simp add: truncate_toward_zero_def)
    with 2(1) show ?thesis by (simp add: channel_byte_def)
  qed
qed

lemma round_float32_minus:
  "round_float32 (- x) = (case round_float32 x of Finite y \<Rightarrow> Finite (- y)
     | PlusInf \<Rightarrow> MinusInf | MinusInf \<Rightarrow> PlusInf | NaN \<Rightarrow> NaN)"
  by (cases "x = 0"; cases "0 < x") (auto simp: round_float32_def Let_def sgn_if)

lemma channel_byte_below:
  assumes "255 * v \<le> - 1"
  shows "channel_byte (Finite v) = Undefined"
proof -
  have "pow2 0 \<le> - (255 * v)" using assms by (simp add: pow2_def)
  with round_float32_lower [of 0 "- (255 * v)"]
  consider "round_float32 (- (255 * v)) = PlusInf"
    | y where "round_float32 (- (255 * v)) = Finite y" "pow2 0 \<le> y"
    by auto
  then show ?thesis
  proof cases
    case 1
    then have "round_float32 (255 * v) = MinusInf"
      using round_float32_minus [of "- (255 * v)"] by simp
    then show ?thesis by (simp add: channel_byte_def)
  next
    case 2
    then have r: "round_float32 (255 * v) = Finite (- y)"
      using round_float32_minus [of "- (255 * v)"] by simp
    from 2(2) have "1 \<le> y" by (simp add: pow2_def)
    then have "\<lceil>- y\<rceil> \<le> - 1" by (simp add: ceiling_le_iff)
    with \<open>1 \<le> y\<close> have "\<not> 0 \<le> truncate_toward_zero (- y)"
      by (simp add: truncate_toward_zero_def)
    with r show ?thesis by (simp add: channel_byte_def)
  qed
qed

text \<open>The cast of a product that rounds into the range of a byte drops its fraction.\<close>

lemma channel_byte_in_range:
  assumes "round_float32 (255 * v) = Finite y" "0 \<le> y" "y < 256"
  shows "channel_byte (Finite v) = Returned (word_of_int \<lfloor>y\<rfloor>)"
proof -
  have "0 \<le> \<lfloor>y\<rfloor>" using assms(2) by simp
  moreover have "\<lfloor>y\<rfloor> < 256" using assms(3) by (simp add: floor_less_iff)
  ultimately show ?thesis
    using assms(1,2) by (simp add: channel_byte_def truncate_toward_zero_def)
qed

lemma channel_byte_small_negative:
  assumes "round_float32 (255 * v) = Finite y" "- 1 < y" "y < 0"
  shows "channel_byte (Finite v) = Returned 0"
proof -
  have "\<lceil>y\<rceil> = 0" using assms(2,3) by (simp add: ceiling_eq_iff)
  then show ?thesis
    using assms(1,3) by (simp add: channel_byte_def truncate_toward_zero_def)
qed

lemma channel_byte_out_of_range:
  assumes "round_float32 (255 * v) = Finite y" "y \<le> - 1 \<or> 256 \<le> y"
  shows "channel_byte (Finite v) = Undefined"
proof -
  from assms(2) show ?thesis
  proof
    assume a: "y \<le> - 1"
    then have "\<lceil>y\<rceil> \<le> - 1" by (simp add: ceiling_le_iff)
    with a have "\<not> 0 \<le> truncate_toward_zero y" by (simp add: truncate_toward_zero_def)
    with assms(1) show ?thesis by (simp add: channel_byte_def)
  next
    assume a: "256 \<le> y"
    then have "256 \<le> \<lfloor>y\<rfloor>" by (simp add: le_floor_iff)
    with a have "\<not> truncate_toward_zero y < 2 ^ LENGTH(8)"
      by (simp add: truncate_toward_zero_def)
    with assms(1) show ?thesis by (simp add: channel_byte_def)
  qed
qed

lemma channel_byte_not_finite:
  "channel_byte NaN = Undefined \<and> channel_byte PlusInf = Undefined \<and>
   channel_byte MinusInf = Undefined"
  by (simp add: channel_byte_def)

text \<open>
  Rounding a positive value below \<open>2 ^ 24\<close> does not cross an integer: the result lies
  between the floor and the ceiling of the value.
\<close>

lemma round_float32_between:
  assumes "0 < x" "x < 2 ^ 24"
  shows "\<exists>y. round_float32 x = Finite y \<and> of_int \<lfloor>x\<rfloor> \<le> y \<and> y \<le> of_int \<lceil>x\<rceil>"
proof -
  define e where "e = ilog2 x"
  define k where "k = nat (- max (e - 23) (- 149))"
  define m where "m = rnd_even (x * 2 ^ k)"
  have "e < 24" unfolding e_def using assms by (rule ilog2_less_24)
  then have "max (e - 23) (- 149) \<le> 0" by simp
  then have mx: "max (e - 23) (- 149) = - int k" unfolding k_def by simp
  have q: "pow2 (max (e - 23) (- 149)) = 1 / 2 ^ k"
    unfolding mx by (simp add: pow2_def)
  have "of_int (\<lfloor>x\<rfloor> * 2 ^ k) \<le> x * 2 ^ k"
    by (simp add: mult_right_mono)
  then have lo: "\<lfloor>x\<rfloor> * 2 ^ k \<le> m" unfolding m_def by (rule rnd_even_ge)
  have "x * 2 ^ k \<le> of_int (\<lceil>x\<rceil> * 2 ^ k)"
    by (simp add: mult_right_mono)
  then have hi: "m \<le> \<lceil>x\<rceil> * 2 ^ k" unfolding m_def by (rule rnd_even_le)
  define y :: rat where "y = of_int m / 2 ^ k"
  from lo have "(of_int (\<lfloor>x\<rfloor> * 2 ^ k) :: rat) \<le> of_int m" by (simp only: of_int_le_iff)
  then have ylo: "of_int \<lfloor>x\<rfloor> \<le> y"
    unfolding y_def by (simp add: pos_le_divide_eq)
  from hi have "(of_int m :: rat) \<le> of_int (\<lceil>x\<rceil> * 2 ^ k)" by (simp only: of_int_le_iff)
  then have yhi: "y \<le> of_int \<lceil>x\<rceil>"
    unfolding y_def by (simp add: pos_divide_le_eq)
  have "\<lceil>x\<rceil> \<le> 2 ^ 24" using assms(2) by (simp add: ceiling_le_iff)
  then have "(of_int \<lceil>x\<rceil> :: rat) \<le> of_int (2 ^ 24)" by (simp only: of_int_le_iff)
  then have "(of_int \<lceil>x\<rceil> :: rat) \<le> 2 ^ 24" by (simp only: of_int_power of_int_numeral)
  with yhi have "y \<le> 2 ^ 24" by (rule order_trans)
  then have fin: "\<not> 2 ^ 128 \<le> y" by simp
  have "round_float32 x = Finite y"
    using assms(1) fin
    by (simp add: round_float32_def Let_def e_def [symmetric] q m_def [symmetric] y_def)
  with ylo yhi show ?thesis by blast
qed

lemma channel_byte_unit_interval:
  assumes "0 \<le> v" "v \<le> 1"
  shows "\<exists>y b. round_float32 (255 * v) = Finite y \<and>
           of_int \<lfloor>255 * v\<rfloor> \<le> y \<and> y \<le> of_int \<lceil>255 * v\<rceil> \<and>
           channel_byte (Finite v) = Returned b \<and> uint b = \<lfloor>y\<rfloor> \<and>
           (uint b = \<lfloor>255 * v\<rfloor> \<or> uint b = \<lceil>255 * v\<rceil>)"
proof -
  define x where "x = 255 * v"
  have x0: "0 \<le> x" and x255: "x \<le> 255" using assms by (simp_all add: x_def)
  have "\<exists>y. round_float32 x = Finite y \<and> of_int \<lfloor>x\<rfloor> \<le> y \<and> y \<le> of_int \<lceil>x\<rceil>"
  proof (cases "x = 0")
    case True
    then show ?thesis by (simp add: round_float32_def)
  next
    case False
    with x0 have "0 < x" by simp
    moreover from x255 have "x < 2 ^ 24" by simp
    ultimately show ?thesis by (rule round_float32_between)
  qed
  then obtain y where r: "round_float32 x = Finite y"
    and lo: "of_int \<lfloor>x\<rfloor> \<le> y" and hi: "y \<le> of_int \<lceil>x\<rceil>" by blast
  have f0: "0 \<le> \<lfloor>x\<rfloor>" using x0 by simp
  then have "(0 :: rat) \<le> of_int \<lfloor>x\<rfloor>" by (simp only: of_int_0_le_iff)
  from this lo have y0: "0 \<le> y" by (rule order_trans)
  have c255: "\<lceil>x\<rceil> \<le> 255" using x255 by (simp add: ceiling_le_iff)
  then have "(of_int \<lceil>x\<rceil> :: rat) \<le> of_int 255" by (simp only: of_int_le_iff)
  then have "(of_int \<lceil>x\<rceil> :: rat) \<le> 255" by (simp only: of_int_numeral)
  with hi have y255: "y \<le> 255" by (rule order_trans)
  then have y256: "y < 256" by simp
  have fy0: "0 \<le> \<lfloor>y\<rfloor>" using y0 by simp
  have fy255: "\<lfloor>y\<rfloor> < 256" using y256 by (simp add: floor_less_iff)
  define b :: u8 where "b = word_of_int \<lfloor>y\<rfloor>"
  have cb: "channel_byte (Finite v) = Returned b"
    unfolding b_def using r y0 y256 unfolding x_def by (rule channel_byte_in_range)
  have ub: "uint b = \<lfloor>y\<rfloor>"
    unfolding b_def using fy0 fy255 by (simp add: uint_word_of_int)
  have "\<lfloor>x\<rfloor> \<le> \<lfloor>y\<rfloor>" using lo by (simp add: le_floor_iff)
  moreover have "\<lfloor>y\<rfloor> \<le> \<lceil>x\<rceil>" using hi by (simp add: floor_le_iff) 
  moreover have "\<lceil>x\<rceil> \<le> \<lfloor>x\<rfloor> + 1" by (simp add: ceiling_altdef)
  ultimately have "\<lfloor>y\<rfloor> = \<lfloor>x\<rfloor> \<or> \<lfloor>y\<rfloor> = \<lceil>x\<rceil>" by linarith
  with ub have "uint b = \<lfloor>x\<rfloor> \<or> uint b = \<lceil>x\<rceil>" by simp
  with r lo hi cb ub show ?thesis unfolding x_def by blast
qed

text \<open>
  The loop of \<open>SaveRenderedImage\<close> appends, for each pixel in order, the conversions of its
  four channels in the order r, g, b, a; what it has built is what the encoder is given.
\<close>

lemma and_then_ReturnedD:
  "and_then x f = Returned z \<Longrightarrow> \<exists>v. x = Returned v \<and> f v = Returned z"
  by (cases x) (simp_all add: and_then_def)

lemma pixel_loop_bytes:
  "pixel_loop (Some px) i n acc = Returned bytes \<Longrightarrow>
   length bytes = length acc + 4 * n \<and> take (length acc) bytes = acc \<and>
   (\<forall>j<n. channel_byte (chan_r (px (i + j))) = Returned (bytes ! (length acc + 4 * j)) \<and>
          channel_byte (chan_g (px (i + j))) = Returned (bytes ! (length acc + 4 * j + 1)) \<and>
          channel_byte (chan_b (px (i + j))) = Returned (bytes ! (length acc + 4 * j + 2)) \<and>
          channel_byte (chan_a (px (i + j))) = Returned (bytes ! (length acc + 4 * j + 3)))"
proof (induction n arbitrary: i acc)
  case 0
  then show ?case by simp
next
  case (Suc n)
  from Suc.prems obtain r g b a where
    r: "channel_byte (chan_r (px i)) = Returned r" and
    g: "channel_byte (chan_g (px i)) = Returned g" and
    b: "channel_byte (chan_b (px i)) = Returned b" and
    a: "channel_byte (chan_a (px i)) = Returned a" and
    rest: "pixel_loop (Some px) (Suc i) n (acc @ [r, g, b, a]) = Returned bytes"
    by (auto dest!: and_then_ReturnedD)
  have la: "length (acc @ [r, g, b, a]) = length acc + 4" by simp
  note ih = Suc.IH [OF rest, unfolded la]
  from ih have "length bytes = length acc + 4 + 4 * n" by (rule conjunct1)
  then have len: "length bytes = length acc + 4 * Suc n" by simp
  from ih have tk: "take (length acc + 4) bytes = acc @ [r, g, b, a]" by blast
  have nth: "bytes ! (length acc + k) = (acc @ [r, g, b, a]) ! (length acc + k)" if "k < 4" for k
  proof -
    have "take (length acc + 4) bytes ! (length acc + k) = bytes ! (length acc + k)"
      using that by simp
    with tk show ?thesis by simp
  qed
  have n0: "bytes ! (length acc) = r" using nth [of 0] by simp
  have n1: "bytes ! (length acc + 1) = g" using nth [of 1] by (simp add: nth_append)
  have n2: "bytes ! (length acc + 2) = b" using nth [of 2] by (simp add: nth_append)
  have n3: "bytes ! (length acc + 3) = a" using nth [of 3] by (simp add: nth_append)
  have "take (length acc) (take (length acc + 4) bytes) = acc"
    unfolding tk by simp
  then have tk0: "take (length acc) bytes = acc" by simp
  have "channel_byte (chan_r (px (i + j))) = Returned (bytes ! (length acc + 4 * j)) \<and>
        channel_byte (chan_g (px (i + j))) = Returned (bytes ! (length acc + 4 * j + 1)) \<and>
        channel_byte (chan_b (px (i + j))) = Returned (bytes ! (length acc + 4 * j + 2)) \<and>
        channel_byte (chan_a (px (i + j))) = Returned (bytes ! (length acc + 4 * j + 3))"
    if j: "j < Suc n" for j
  proof (cases j)
    case 0
    then show ?thesis using r g b a n0 n1 n2 n3 by simp
  next
    case (Suc k)
    with j have "k < n" by simp
    with ih have
      "channel_byte (chan_r (px (Suc i + k))) = Returned (bytes ! (length acc + 4 + 4 * k)) \<and>
       channel_byte (chan_g (px (Suc i + k))) = Returned (bytes ! (length acc + 4 + 4 * k + 1)) \<and>
       channel_byte (chan_b (px (Suc i + k))) = Returned (bytes ! (length acc + 4 + 4 * k + 2)) \<and>
       channel_byte (chan_a (px (Suc i + k))) = Returned (bytes ! (length acc + 4 + 4 * k + 3))"
      by blast
    moreover have "length acc + 4 + 4 * k = length acc + 4 * j"
      using Suc by simp
    ultimately show ?thesis using Suc by simp
  qed
  with len tk0 show ?case by blast
qed

lemma pixel_loop_unmapped:
  "pixel_loop None i n acc = Returned bytes \<Longrightarrow> n = 0"
  by (cases n) simp_all

lemma SaveRenderedImage_png_input:
  assumes "SaveRenderedImage e s = (Returned (), s')"
  shows "\<exists>bytes.
    pixel_loop (mapped_memory e) 0 (nat (kWidth e * kHeight e)) [] = Returned bytes \<and>
    png_input s' = Some (bytes, kWidth e, kHeight e)"
proof -
  from assms obtain s3 s4 where
    b: "bind (lift (pixel_loop (mapped_memory e) 0 (nat (kWidth e * kHeight e)) []))
       (\<lambda>image_vec. steps
         [call vkUnmapMemory,
          modify (\<lambda>s. s\<lparr>png_input := Some (image_vec, kWidth e, kHeight e)\<rparr>),
          if_then (encoder_error e \<noteq> 0) (printf (Encoder_error (encoder_error e)))]) s3
       = (Returned (), s4)" and
    n: "steps [] s4 = (Returned (), s')"
    unfolding SaveRenderedImage_def by (elim steps_ConsE)
  from n have s4: "s' = s4" by (rule steps_NilD)
  from b obtain bytes s5 where
    l: "lift (pixel_loop (mapped_memory e) 0 (nat (kWidth e * kHeight e)) []) s3
          = (Returned bytes, s5)" and
    r: "steps
         [call vkUnmapMemory,
          modify (\<lambda>s. s\<lparr>png_input := Some (bytes, kWidth e, kHeight e)\<rparr>),
          if_then (encoder_error e \<noteq> 0) (printf (Encoder_error (encoder_error e)))] s5
         = (Returned (), s4)"
    by (blast dest: bind_ReturnedD)
  from l have p: "pixel_loop (mapped_memory e) 0 (nat (kWidth e * kHeight e)) [] = Returned bytes"
    by (simp add: lift_def split: result.splits)
  from r have "png_input s4 = Some (bytes, kWidth e, kHeight e)"
    by (elim steps_ConsE) (auto simp: prog_defs split: if_splits)
  with p s4 show ?thesis by blast
qed

subsection \<open>Steps that always return\<close>

lemma runs_on_return: "runs_on d (return v)"
  by (simp add: runs_on_def return_def)

lemma runs_on_lift: "runs_on d (lift (Returned v))"
  by (simp add: runs_on_def lift_def)

lemma runs_on_call: "runs_on d (call c)"
  by (simp add: runs_on_def call_def modify_def)

lemma runs_on_printf: "runs_on d (printf m)"
  by (simp add: runs_on_def printf_def modify_def)

lemma runs_on_modify: "(\<And>s. physical_device (f s) = physical_device s) \<Longrightarrow> runs_on d (modify f)"
  by (simp add: runs_on_def modify_def)

lemma runs_onD:
  fixes p :: "unit prog"
  assumes "runs_on d p" "physical_device s = d"
  shows "\<exists>s'. p s = (Returned (), s')"
proof -
  from assms obtain x s' where "p s = (Returned x, s')"
    unfolding runs_on_def by blast
  then have "p s = (Returned (), s')" by simp
  then show ?thesis ..
qed

lemma runs_on_bind:
  assumes "runs_on d m" "\<And>x. runs_on d (f x)"
  shows "runs_on d (bind m f)"
  unfolding runs_on_def
proof (intro allI impI)
  fix s :: app
  assume "physical_device s = d"
  with assms(1) obtain x s1 where 1: "m s = (Returned x, s1)" "physical_device s1 = d"
    unfolding runs_on_def by blast
  with assms(2) [of x] obtain y s2 where "f x s1 = (Returned y, s2)" "physical_device s2 = d"
    unfolding runs_on_def by blast
  with 1 show "\<exists>y s'. bind m f s = (Returned y, s') \<and> physical_device s' = d"
    by (simp add: bind_def)
qed

lemma runs_on_if_then: "(c \<Longrightarrow> runs_on d p) \<Longrightarrow> runs_on d (if_then c p)"
  by (simp add: if_then_def runs_on_return)

lemma runs_on_steps_Nil: "runs_on d (steps [])"
  by (simp add: runs_on_return)

lemma runs_on_steps_Cons: "runs_on d p \<Longrightarrow> runs_on d (steps ps) \<Longrightarrow> runs_on d (steps (p # ps))"
  by (simp add: runs_on_bind)

lemma runs_on_VK_CHECK_RESULT: "NDEBUG e \<Longrightarrow> runs_on d (VK_CHECK_RESULT e f)"
  unfolding VK_CHECK_RESULT_def Let_def
  by (intro runs_on_bind runs_on_call runs_on_if_then runs_on_printf) simp

lemmas runs_on_intros = runs_on_bind runs_on_steps_Cons runs_on_steps_Nil runs_on_if_then
  runs_on_VK_CHECK_RESULT runs_on_call runs_on_printf runs_on_return runs_on_lift

lemma runs_on_CreateInstance: "NDEBUG e \<Longrightarrow> runs_on d (CreateInstance e)"
  unfolding CreateInstance_def kEnableValidationLayers_def
  by (intro runs_on_intros) simp_all

lemma runs_on_CreateDevice:
  assumes "NDEBUG e" "\<exists>props \<in> set (queue_family_properties e d). has_compute_queue props"
  shows "runs_on d (CreateDevice e)"
proof -
  let ?qf = "queue_family_properties e d"
  have "queue_family_loop ?qf 0 (length ?qf) \<noteq> length ?qf"
  proof
    assume a: "queue_family_loop ?qf 0 (length ?qf) = length ?qf"
    define P where "P = (\<lambda>i. i < length ?qf \<and> has_compute_queue (?qf ! i))"
    define j where "j = (LEAST i. P i)"
    from assms(2) have "\<exists>i. P i" by (auto simp: P_def in_set_conv_nth)
    then have "P j" unfolding j_def by (rule LeastI_ex)
    then have j: "j < length ?qf" "has_compute_queue (?qf ! j)" by (simp_all add: P_def)
    have least: "\<not> has_compute_queue (?qf ! k)" if "k < j" for k
    proof
      assume "has_compute_queue (?qf ! k)"
      with that j(1) have "P k" by (simp add: P_def)
      then have "j \<le> k" unfolding j_def by (rule Least_le)
      with that show False by simp
    qed
    have "queue_family_loop ?qf 0 (length ?qf) = j"
    proof (rule queue_family_loop_found)
      show "0 + length ?qf = length ?qf" by simp
      show "0 \<le> j" by simp
      show "j < length ?qf" by (rule j(1))
      show "has_compute_queue (?qf ! j)" by (rule j(2))
      show "\<forall>k. 0 \<le> k \<and> k < j \<longrightarrow> \<not> has_compute_queue (?qf ! k)"
        using least by simp
    qed
    with a j(1) show False by simp
  qed
  then have "runs_on d (GetComputeQueueFamilyIndex e)"
    by (simp add: runs_on_def GetComputeQueueFamilyIndex_def Let_def return_def)
  then show ?thesis
    unfolding CreateDevice_def using assms(1)
    by (intro runs_on_intros runs_on_modify) simp_all
qed

lemma FindMemoryType_returns:
  assumes "memory_properties_ok mp"
  shows "\<exists>i. FindMemoryType mp bits props = Returned i"
  using FindMemoryType_cases [OF assms, of bits props] by blast

lemma runs_on_CreateBuffer:
  assumes "NDEBUG e" "memory_properties_ok (memory_properties e d)"
  shows "runs_on d (CreateBuffer e)"
  unfolding runs_on_def
proof (intro allI impI)
  fix s :: app
  assume d: "physical_device s = d"
  obtain i where i: "FindMemoryType (memory_properties e d) (memoryTypeBits e) host_flags = Returned i"
    using FindMemoryType_returns [OF assms(2)] by blast
  have "runs_on d (steps
     [VK_CHECK_RESULT e (vkCreateBuffer (buffer_size s)),
      bind (lift (FindMemoryType (memory_properties e (physical_device s)) (memoryTypeBits e)
                    host_flags))
        (\<lambda>memoryTypeIndex. VK_CHECK_RESULT e (vkAllocateMemory memoryTypeIndex)),
      VK_CHECK_RESULT e vkBindBufferMemory])"
    using assms(1) by (simp only: d i) (intro runs_on_intros)
  with d show "\<exists>x s'. CreateBuffer e s = (Returned x, s') \<and> physical_device s' = d"
    unfolding runs_on_def CreateBuffer_def by blast
qed

lemma runs_on_CreateDescriptorSetLayout: "NDEBUG e \<Longrightarrow> runs_on d (CreateDescriptorSetLayout e)"
  unfolding CreateDescriptorSetLayout_def by (rule runs_on_VK_CHECK_RESULT)

lemma runs_on_CreateDescriptorSet: "NDEBUG e \<Longrightarrow> runs_on d (CreateDescriptorSet e)"
  unfolding CreateDescriptorSet_def by (intro runs_on_intros)

lemma runs_on_CreateComputePipeline:
  assumes "NDEBUG e" "files e ''shaders/comp.spv'' \<noteq> None"
  shows "runs_on d (CreateComputePipeline e)"
proof -
  from assms(2) obtain content where "files e ''shaders/comp.spv'' = Some content"
    by blast
  then have "runs_on d (ReadFile e ''shaders/comp.spv'')"
    by (simp add: ReadFile_def Let_def runs_on_return)
  then show ?thesis
    unfolding CreateComputePipeline_def using assms(1)
    by (intro runs_on_bind) (auto intro!: runs_on_intros)
qed

lemma runs_on_CreateCommandBuffer:
  assumes "NDEBUG e" "constants_ok e"
  shows "runs_on d (CreateCommandBuffer e)"
  unfolding runs_on_def
proof (intro allI impI)
  fix s :: app
  assume d: "physical_device s = d"
  from assms(2) have x: "group_count (kWidth e) (kWorkgroupeSize e) =
      Returned (word_of_int \<lceil>(of_int (kWidth e) / of_int (kWorkgroupeSize e) :: rat)\<rceil>)"
    by (intro group_count_ceiling) (simp_all add: constants_ok_def)
  from assms(2) have y: "group_count (kHeight e) (kWorkgroupeSize e) =
      Returned (word_of_int \<lceil>(of_int (kHeight e) / of_int (kWorkgroupeSize e) :: rat)\<rceil>)"
    by (intro group_count_ceiling) (simp_all add: constants_ok_def)
  have "runs_on d (steps
     [VK_CHECK_RESULT e (vkCreateCommandPool (queue_family_index s)),
      VK_CHECK_RESULT e vkAllocateCommandBuffers,
      VK_CHECK_RESULT e vkBeginCommandBuffer,
      call vkCmdBindPipeline,
      call vkCmdBindDescriptorSets,
      bind (lift (group_count (kWidth e) (kWorkgroupeSize e))) (\<lambda>x.
        bind (lift (group_count (kHeight e) (kWorkgroupeSize e))) (\<lambda>y.
          call (vkCmdDispatch x y 1))),
      VK_CHECK_RESULT e vkEndCommandBuffer])"
    using assms(1) by (simp only: x y) (intro runs_on_intros)
  with d show "\<exists>x s'. CreateCommandBuffer e s = (Returned x, s') \<and> physical_device s' = d"
    unfolding runs_on_def CreateCommandBuffer_def by blast
qed

lemma runs_on_RunCommandBuffer: "NDEBUG e \<Longrightarrow> runs_on d (RunCommandBuffer e)"
  unfolding RunCommandBuffer_def by (intro runs_on_intros)

lemma channel_byte_cases: "channel_byte v = Undefined \<or> (\<exists>b. channel_byte v = Returned b)"
  by (cases "float_mul (Finite 255) v") (simp_all add: channel_byte_def)

lemma pixel_loop_returns:
  "(\<forall>j. i \<le> j \<and> j < i + n \<longrightarrow> pixel_ok (px j)) \<Longrightarrow>
   \<exists>bytes. pixel_loop (Some px) i n image_vec = Returned bytes"
proof (induction n arbitrary: i image_vec)
  case 0
  then show ?case by simp
next
  case (Suc n)
  from Suc.prems have "pixel_ok (px i)" by simp
  then obtain r g b a where c: "channel_byte (chan_r (px i)) = Returned r"
    "channel_byte (chan_g (px i)) = Returned g" "channel_byte (chan_b (px i)) = Returned b"
    "channel_byte (chan_a (px i)) = Returned a"
    unfolding pixel_ok_def channel_ok_def
    using channel_byte_cases by metis
  have "\<exists>bytes. pixel_loop (Some px) (Suc i) n (image_vec @ [r, g, b, a]) = Returned bytes"
    using Suc.prems by (intro Suc.IH) simp
  then show ?case
    by (simp add: c and_then_def)
qed

lemma runs_on_SaveRenderedImage:
  assumes "constants_ok e" "readable e"
  shows "runs_on d (SaveRenderedImage e)"
proof -
  from assms(2) obtain px where px: "mapped_memory e = Some px"
    "\<forall>i < nat (kWidth e * kHeight e). pixel_ok (px i)"
    by (auto simp: readable_def split: option.splits)
  then obtain bytes where b: "pixel_loop (mapped_memory e) 0 (nat (kWidth e * kHeight e)) [] =
      Returned bytes"
    using pixel_loop_returns [of 0 "nat (kWidth e * kHeight e)" px "[]"] by auto
  define p where "p = kWidth e * kHeight e"
  from assms(1) have "0 < p" "p * 4 < 2 ^ 31"
    by (simp_all add: constants_ok_def p_def)
  then have "int32 p" "int32 (p * 4)" "\<not> p * 4 < 0"
    by (simp_all add: int32_def)
  then have r: "int32 (kWidth e * kHeight e)" "int32 (kWidth e * kHeight e * 4)"
    "\<not> kWidth e * kHeight e * 4 < 0"
    unfolding p_def by simp_all
  show ?thesis
    unfolding SaveRenderedImage_def
    by (simp only: b) (intro runs_on_intros runs_on_modify; simp add: r)
qed

lemma runs_on_CleanUp: "NDEBUG e \<Longrightarrow> runs_on d (CleanUp e)"
  unfolding CleanUp_def kEnableValidationLayers_def
  by (intro runs_on_intros) simp_all

subsection \<open>The release build and failing Vulkan calls\<close>

lemma CleanUp_closed_form:
  "CleanUp e s =
     (if \<not> NDEBUG e \<and> \<not> destroy_debug_report_loaded e
      then (Thrown ''Could not load vkDestroyDebugReportCallbackEXT'', s)
      else (Returned (), s\<lparr>calls := calls s @
              (if NDEBUG e then [] else [vkDestroyDebugReportCallbackEXT]) @
              [vkFreeMemory, vkDestroyBuffer, vkDestroyShaderModule, vkDestroyDescriptorPool,
               vkDestroyDescriptorSetLayout, vkDestroyPipelineLayout, vkDestroyPipeline,
               vkDestroyCommandPool, vkDestroyDevice, vkDestroyInstance]\<rparr>))"
  by (simp add: CleanUp_def kEnableValidationLayers_def prog_defs)

lemma main_success:
  "main e = (Returned EXIT_SUCCESS, s) \<longleftrightarrow> Run e app0 = (Returned (), s)"
  by (auto simp: main_def EXIT_SUCCESS_def EXIT_FAILURE_def split: prod.splits result.splits)

lemma Run_ends_with_CleanUp:
  assumes "Run e app0 = (Returned (), s)"
  obtains s' where "CleanUp e s' = (Returned (), s)"
proof -
  note assms [unfolded Run_def]
  then obtain s1 s2 s3 s4 s5 s6 s7 s8 s9 s10 s11 s12
    where "CleanUp e s11 = (Returned (), s12)" "steps [] s12 = (Returned (), s)"
    by (elim steps_ConsE)
  then have "CleanUp e s11 = (Returned (), s)"
    by (simp add: return_def)
  then show ?thesis ..
qed

lemma Run_release_returns:
  assumes "NDEBUG e" "constants_ok e" "machine_ok e" "readable e"
  shows "\<exists>s. Run e app0 = (Returned (), s)"
proof -
  from assms(3) obtain d ds where d: "devices e = d # ds"
    and q: "\<exists>props \<in> set (queue_family_properties e d). has_compute_queue props"
    and m: "memory_properties_ok (memory_properties e d)"
    and f: "files e ''shaders/comp.spv'' \<noteq> None"
    by (auto simp: machine_ok_def split: list.splits)
  let ?s1 = "app0\<lparr>buffer_size := word_of_int (16 * kWidth e * kHeight e)\<rparr>"
  obtain s2 where 2: "CreateInstance e ?s1 = (Returned (), s2)"
    using runs_onD [OF runs_on_CreateInstance [OF assms(1)] refl] by blast
  have 3: "FindPhysicalDevice e s2 = (Returned (), s2\<lparr>physical_device := d\<rparr>)"
    by (simp add: FindPhysicalDevice_def d modify_def)
  have "runs_on d (steps [CreateDevice e, CreateBuffer e, CreateDescriptorSetLayout e,
      CreateDescriptorSet e, CreateComputePipeline e, CreateCommandBuffer e, RunCommandBuffer e,
      SaveRenderedImage e, CleanUp e])"
    using assms q m f
    by (intro runs_on_steps_Cons runs_on_steps_Nil runs_on_CreateDevice runs_on_CreateBuffer
        runs_on_CreateDescriptorSetLayout runs_on_CreateDescriptorSet
        runs_on_CreateComputePipeline runs_on_CreateCommandBuffer runs_on_RunCommandBuffer
        runs_on_SaveRenderedImage runs_on_CleanUp)
  then have "\<exists>s. steps [CreateDevice e, CreateBuffer e, CreateDescriptorSetLayout e,
      CreateDescriptorSet e, CreateComputePipeline e, CreateCommandBuffer e, RunCommandBuffer e,
      SaveRenderedImage e, CleanUp e] (s2\<lparr>physical_device := d\<rparr>) = (Returned (), s)"
    by (rule runs_onD) simp
  then obtain s where "steps [CreateDevice e, CreateBuffer e, CreateDescriptorSetLayout e,
      CreateDescriptorSet e, CreateComputePipeline e, CreateCommandBuffer e, RunCommandBuffer e,
      SaveRenderedImage e, CleanUp e] (s2\<lparr>physical_device := d\<rparr>) = (Returned (), s)"
    by blast
  with 2 3 have "Run e app0 = (Returned (), s)"
    by (simp add: Run_def bind_def modify_def)
  then show ?thesis ..
qed

lemma VK_CHECK_RESULT_release:
  "NDEBUG e \<Longrightarrow>
   VK_CHECK_RESULT e f s =
     (Returned (), s\<lparr>calls := calls s @ [f],
        stdout := stdout s @
          (if vk_result e f = VK_SUCCESS then [] else [Fatal_VkResult (vk_result e f)])\<rparr>)"
  by (simp add: prog_defs)

text \<open>
  C10. In a release build \<open>VK_CHECK_RESULT\<close> always returns: a result other than
  \<open>VK_SUCCESS\<close> adds one line to the output and nothing else. So whatever the Vulkan
  calls answer, a run in which nothing else goes wrong makes every call up to
  \<open>vkDestroyInstance\<close> and ends with \<open>EXIT_SUCCESS\<close>.
\<close>

theorem release_build_continues_past_failed_calls:
  assumes "NDEBUG e" "constants_ok e" "machine_ok e" "readable e"
  shows "(\<forall>f s. VK_CHECK_RESULT e f s =
            (Returned (), s\<lparr>calls := calls s @ [f],
               stdout := stdout s @
                 (if vk_result e f = VK_SUCCESS then [] else [Fatal_VkResult (vk_result e f)])\<rparr>)) \<and>
         fst (main e) = Returned EXIT_SUCCESS \<and>
         last (calls (snd (main e))) = vkDestroyInstance"
proof -
  from Run_release_returns [OF assms] obtain s where r: "Run e app0 = (Returned (), s)"
    by blast
  then have m: "main e = (Returned EXIT_SUCCESS, s)"
    by (simp only: main_success)
  from r obtain s' where "CleanUp e s' = (Returned (), s)"
    by (rule Run_ends_with_CleanUp)
  then have "last (calls s) = vkDestroyInstance"
    by (auto simp: CleanUp_closed_form split: if_splits)
  with m VK_CHECK_RESULT_release [OF assms(1)] show ?thesis
    by simp
qed

lemma ex_memory_type: "FindMemoryType mp_two 3 host_flags = Returned 1"
  by code_simp

lemma ex_groups: "group_count 3 2 = Returned 2" "group_count 2 2 = Returned 1"
  by code_simp+

lemma ex_channels:
  "channel_byte (Finite 1) = Returned 255" "channel_byte (Finite (1 / 2)) = Returned 127"
  "channel_byte (Finite 0) = Returned 0"
  by code_simp+

lemma ex_pixels:
  "pixel_loop (Some (\<lambda>_. \<lparr>chan_r = Finite 1, chan_g = Finite (1 / 2),
                            chan_b = Finite 0, chan_a = Finite 1\<rparr>)) 0 6 [] =
   Returned [255, 127, 0, 255, 255, 127, 0, 255, 255, 127, 0, 255,
             255, 127, 0, 255, 255, 127, 0, 255, 255, 127, 0, 255]"
  by code_simp

lemmas member_defs = CreateInstance_def FindPhysicalDevice_def GetComputeQueueFamilyIndex_def
  CreateDevice_def CreateBuffer_def CreateDescriptorSetLayout_def CreateDescriptorSet_def
  ReadFile_def CreateComputePipeline_def CreateCommandBuffer_def RunCommandBuffer_def
  SaveRenderedImage_def CleanUp_def Run_def main_def app0_def kEnableValidationLayers_def

lemmas ex_simps = ex_memory_type ex_groups ex_pixels member_defs prog_defs compute_bit_test
  compute_capable_def VK_SUCCESS_def EXIT_FAILURE_def EXIT_SUCCESS_def
  VK_EXT_DEBUG_REPORT_EXTENSION_NAME_def int32_def

theorem release_build_continues_past_failed_calls_witness:
  "NDEBUG env_all_calls_fail \<and> constants_ok env_all_calls_fail \<and>
   machine_ok env_all_calls_fail \<and> readable env_all_calls_fail \<and>
   vk_result env_all_calls_fail vkQueueSubmit \<noteq> VK_SUCCESS \<and>
   fst (main env_all_calls_fail) = Returned EXIT_SUCCESS \<and>
   last (calls (snd (main env_all_calls_fail))) = vkDestroyInstance"
proof -
  have h: "NDEBUG env_all_calls_fail" "constants_ok env_all_calls_fail"
    "machine_ok env_all_calls_fail" "readable env_all_calls_fail"
    by (simp_all add: env_all_calls_fail_def env_release_def env_ok_def constants_ok_def
        machine_ok_def readable_def pixel_ok_def channel_ok_def ex_channels
        has_compute_queue_def compute_capable_def memory_properties_ok_def mp_two_def)
  have "vk_result env_all_calls_fail vkQueueSubmit \<noteq> VK_SUCCESS"
    by (simp add: env_all_calls_fail_def VK_ERROR_DEVICE_LOST_def VK_SUCCESS_def)
  with release_build_continues_past_failed_calls [OF h] h show ?thesis
    by simp
qed

subsection \<open>The bytes handed to the encoder\<close>

lemma SaveRenderedImage_bytes:
  assumes "SaveRenderedImage e s = (Returned (), s')"
  shows "\<exists>bytes. png_input s' = Some (bytes, kWidth e, kHeight e) \<and>
     length bytes = 4 * nat (kWidth e * kHeight e) \<and>
     (\<forall>j < nat (kWidth e * kHeight e). \<exists>px. mapped_memory e = Some px \<and>
        channel_byte (chan_r (px j)) = Returned (bytes ! (4 * j)) \<and>
        channel_byte (chan_g (px j)) = Returned (bytes ! (4 * j + 1)) \<and>
        channel_byte (chan_b (px j)) = Returned (bytes ! (4 * j + 2)) \<and>
        channel_byte (chan_a (px j)) = Returned (bytes ! (4 * j + 3)))"
proof -
  define n where "n = nat (kWidth e * kHeight e)"
  from SaveRenderedImage_png_input [OF assms] obtain bytes where
    p: "pixel_loop (mapped_memory e) 0 n [] = Returned bytes" and
    png: "png_input s' = Some (bytes, kWidth e, kHeight e)"
    unfolding n_def by blast
  show ?thesis
  proof (cases "mapped_memory e")
    case None
    with p have "n = 0" by (simp add: pixel_loop_unmapped)
    with p png show ?thesis unfolding n_def [symmetric] by simp
  next
    case (Some px)
    with p have "pixel_loop (Some px) 0 n [] = Returned bytes" by simp
    from pixel_loop_bytes [OF this] Some png show ?thesis
      unfolding n_def [symmetric] by simp
  qed
qed

lemma SaveRenderedImage_returns:
  assumes "constants_ok e" "readable e"
  shows "\<exists>s'. SaveRenderedImage e s = (Returned (), s')"
proof -
  have "runs_on (physical_device s) (SaveRenderedImage e)"
    using assms by (rule runs_on_SaveRenderedImage)
  then show ?thesis by (auto simp: runs_on_def)
qed

text \<open>
  C4. The channel conversion applied during readback is the cast of \<open>255.0f * value\<close> to
  \<open>unsigned char\<close>: 1.0 gives 255 and 0.0 gives 0, and the fraction is dropped (0.5 gives
  127, 255/256 gives 254, a small negative value gives 0). In general, when the rounded
  product \<open>y\<close> satisfies \<open>0 \<le> y < 256\<close> the byte is \<open>\<lfloor>y\<rfloor>\<close>, and when \<open>-1 < y < 0\<close> it is 0; for
  every value in \<open>[0, 1]\<close> the conversion is defined and the byte is the floor or the
  ceiling of \<open>255 * value\<close>. Nothing clamps: whenever the product reaches 256, or -1, or is
  not finite, no byte is its value and the cast has no defined result. The loop of
  \<open>SaveRenderedImage\<close> appends exactly these bytes, four per pixel in the order r, g, b, a,
  and every run of \<open>SaveRenderedImage\<close> that returns has handed the encoder
  \<open>4 * kWidth * kHeight\<close> bytes, the byte at \<open>4 * j + c\<close> being the conversion of channel \<open>c\<close>
  of pixel \<open>j\<close> of the mapped memory; it returns whenever the constants are in range and
  every channel read has a defined conversion.
\<close>

theorem channel_byte_truncating_cast:
  "channel_byte (Finite 1) = Returned 255 \<and>
   channel_byte (Finite 0) = Returned 0 \<and>
   channel_byte (Finite (1 / 2)) = Returned 127 \<and>
   channel_byte (Finite (255 / 256)) = Returned 254 \<and>
   channel_byte (Finite (- 1 / 256)) = Returned 0 \<and>
   (\<forall>v. 256 \<le> 255 * v \<longrightarrow> channel_byte (Finite v) = Undefined) \<and>
   (\<forall>v. 255 * v \<le> - 1 \<longrightarrow> channel_byte (Finite v) = Undefined) \<and>
   (\<forall>v y. round_float32 (255 * v) = Finite y \<and> 0 \<le> y \<and> y < 256 \<longrightarrow>
      channel_byte (Finite v) = Returned (word_of_int \<lfloor>y\<rfloor>)) \<and>
   (\<forall>v y. round_float32 (255 * v) = Finite y \<and> - 1 < y \<and> y < 0 \<longrightarrow>
      channel_byte (Finite v) = Returned 0) \<and>
   (\<forall>v y. round_float32 (255 * v) = Finite y \<and> (y \<le> - 1 \<or> 256 \<le> y) \<longrightarrow>
      channel_byte (Finite v) = Undefined) \<and>
   (channel_byte NaN = Undefined \<and> channel_byte PlusInf = Undefined \<and>
    channel_byte MinusInf = Undefined) \<and>
   (\<forall>v. 0 \<le> v \<and> v \<le> 1 \<longrightarrow>
      (\<exists>y b. round_float32 (255 * v) = Finite y \<and>
         of_int \<lfloor>255 * v\<rfloor> \<le> y \<and> y \<le> of_int \<lceil>255 * v\<rceil> \<and>
         channel_byte (Finite v) = Returned b \<and> uint b = \<lfloor>y\<rfloor> \<and>
         (uint b = \<lfloor>255 * v\<rfloor> \<or> uint b = \<lceil>255 * v\<rceil>))) \<and>
   (\<forall>px i n image_vec bytes.
      pixel_loop (Some px) i n image_vec = Returned bytes \<longrightarrow>
      length bytes = length image_vec + 4 * n \<and> take (length image_vec) bytes = image_vec \<and>
      (\<forall>j<n.
         channel_byte (chan_r (px (i + j))) = Returned (bytes ! (length image_vec + 4 * j)) \<and>
         channel_byte (chan_g (px (i + j))) = Returned (bytes ! (length image_vec + 4 * j + 1)) \<and>
         channel_byte (chan_b (px (i + j))) = Returned (bytes ! (length image_vec + 4 * j + 2)) \<and>
         channel_byte (chan_a (px (i + j))) = Returned (bytes ! (length image_vec + 4 * j + 3)))) \<and>
   (\<forall>e s s'. SaveRenderedImage e s = (Returned (), s') \<longrightarrow>
      (\<exists>bytes. png_input s' = Some (bytes, kWidth e, kHeight e) \<and>
         length bytes = 4 * nat (kWidth e * kHeight e) \<and>
         (\<forall>j < nat (kWidth e * kHeight e). \<exists>px. mapped_memory e = Some px \<and>
            channel_byte (chan_r (px j)) = Returned (bytes ! (4 * j)) \<and>
            channel_byte (chan_g (px j)) = Returned (bytes ! (4 * j + 1)) \<and>
            channel_byte (chan_b (px j)) = Returned (bytes ! (4 * j + 2)) \<and>
            channel_byte (chan_a (px j)) = Returned (bytes ! (4 * j + 3))))) \<and>
   (\<forall>e s. constants_ok e \<and> readable e \<longrightarrow>
      (\<exists>s'. SaveRenderedImage e s = (Returned (), s')))"
proof (intro conjI allI impI)
  show "channel_byte (Finite 1) = Returned 255" by code_simp
  show "channel_byte (Finite 0) = Returned 0" by code_simp
  show "channel_byte (Finite (1 / 2)) = Returned 127" by code_simp
  show "channel_byte (Finite (255 / 256)) = Returned 254" by code_simp
  show "channel_byte (Finite (- 1 / 256)) = Returned 0" by code_simp
  show "channel_byte (Finite v) = Undefined" if "256 \<le> 255 * v" for v
    using that by (rule channel_byte_above)
  show "channel_byte (Finite v) = Undefined" if "255 * v \<le> - 1" for v
    using that by (rule channel_byte_below)
  show "channel_byte (Finite v) = Returned (word_of_int \<lfloor>y\<rfloor>)"
    if "round_float32 (255 * v) = Finite y \<and> 0 \<le> y \<and> y < 256" for v y
    using that by (blast intro: channel_byte_in_range)
  show "channel_byte (Finite v) = Returned 0"
    if "round_float32 (255 * v) = Finite y \<and> - 1 < y \<and> y < 0" for v y
    using that by (blast intro: channel_byte_small_negative)
  show "channel_byte (Finite v) = Undefined"
    if "round_float32 (255 * v) = Finite y \<and> (y \<le> - 1 \<or> 256 \<le> y)" for v y
    using that by (blast intro: channel_byte_out_of_range)
  show "channel_byte NaN = Undefined" "channel_byte PlusInf = Undefined"
    "channel_byte MinusInf = Undefined"
    by (simp_all add: channel_byte_not_finite)
  show "\<exists>y b. round_float32 (255 * v) = Finite y \<and>
         of_int \<lfloor>255 * v\<rfloor> \<le> y \<and> y \<le> of_int \<lceil>255 * v\<rceil> \<and>
         channel_byte (Finite v) = Returned b \<and> uint b = \<lfloor>y\<rfloor> \<and>
         (uint b = \<lfloor>255 * v\<rfloor> \<or> uint b = \<lceil>255 * v\<rceil>)"
    if "0 \<le> v \<and> v \<le> 1" for v
    using that by (blast intro: channel_byte_unit_interval)
  show "\<exists>bytes. png_input s' = Some (bytes, kWidth e, kHeight e) \<and>
         length bytes = 4 * nat (kWidth e * kHeight e) \<and>
         (\<forall>j < nat (kWidth e * kHeight e). \<exists>px. mapped_memory e = Some px \<and>
            channel_byte (chan_r (px j)) = Returned (bytes ! (4 * j)) \<and>
            channel_byte (chan_g (px j)) = Returned (bytes ! (4 * j + 1)) \<and>
            channel_byte (chan_b (px j)) = Returned (bytes ! (4 * j + 2)) \<and>
            channel_byte (chan_a (px j)) = Returned (bytes ! (4 * j + 3)))"
    if "SaveRenderedImage e s = (Returned (), s')" for e s s'
    using that by (rule SaveRenderedImage_bytes)
  show "\<exists>s'. SaveRenderedImage e s = (Returned (), s')"
    if "constants_ok e \<and> readable e" for e s
    using that by (blast intro: SaveRenderedImage_returns)
  fix px i n image_vec bytes j
  assume p: "pixel_loop (Some px) i n image_vec = Returned bytes"
  note b = pixel_loop_bytes [OF p]
  from b show "length bytes = length image_vec + 4 * n" by (rule conjunct1)
  from b show "take (length image_vec) bytes = image_vec" by blast
  assume j: "j < n"
  with b show "channel_byte (chan_r (px (i + j))) = Returned (bytes ! (length image_vec + 4 * j))"
    by blast
  from b j show "channel_byte (chan_g (px (i + j))) = Returned (bytes ! (length image_vec + 4 * j + 1))"
    by blast
  from b j show "channel_byte (chan_b (px (i + j))) = Returned (bytes ! (length image_vec + 4 * j + 2))"
    by blast
  from b j show "channel_byte (chan_a (px (i + j))) = Returned (bytes ! (length image_vec + 4 * j + 3))"
    by blast
qed

theorem channel_byte_truncating_cast_witness:
  "(256 :: rat) \<le> 255 * 2 \<and> channel_byte (Finite 2) = Undefined \<and>
   (255 :: rat) * (- 1) \<le> - 1 \<and> channel_byte (Finite (- 1)) = Undefined \<and>
   round_float32 (255 * (3 / 4)) = Finite (765 / 4) \<and>
   channel_byte (Finite (3 / 4)) = Returned 191 \<and>
   round_float32 (255 * (- 1 / 512)) = Finite (- 255 / 512) \<and>
   channel_byte (Finite (- 1 / 512)) = Returned 0 \<and>
   round_float32 (255 * (3 / 2)) = Finite (765 / 2) \<and>
   channel_byte (Finite (3 / 2)) = Undefined \<and>
   (\<exists>y b. round_float32 (255 * (1 / 2)) = Finite y \<and> 127 \<le> y \<and> y \<le> 128 \<and>
      channel_byte (Finite (1 / 2)) = Returned b \<and> uint b = \<lfloor>y\<rfloor> \<and>
      (uint b = 127 \<or> uint b = 128)) \<and>
   pixel_loop (Some (\<lambda>_. \<lparr>chan_r = Finite 1, chan_g = Finite (1 / 2),
                            chan_b = Finite 0, chan_a = Finite 1\<rparr>)) 0 6 [] =
     Returned [255, 127, 0, 255, 255, 127, 0, 255, 255, 127, 0, 255,
               255, 127, 0, 255, 255, 127, 0, 255, 255, 127, 0, 255] \<and>
   channel_byte (Finite 1) = Returned 255 \<and>
   channel_byte (Finite (1 / 2)) = Returned 127 \<and>
   constants_ok env_ok \<and> readable env_ok \<and>
   SaveRenderedImage env_ok app0 =
     (Returned (),
      app0\<lparr>calls := [vkMapMemory, vkUnmapMemory],
           png_input := Some ([255, 127, 0, 255, 255, 127, 0, 255, 255, 127, 0, 255,
                               255, 127, 0, 255, 255, 127, 0, 255, 255, 127, 0, 255], 3, 2)\<rparr>) \<and>
   (\<exists>bytes. png_input (snd (SaveRenderedImage env_ok app0)) = Some (bytes, 3, 2) \<and>
      length bytes = 24 \<and>
      channel_byte (Finite 1) = Returned (bytes ! 20) \<and>
      channel_byte (Finite (1 / 2)) = Returned (bytes ! 21) \<and>
      channel_byte (Finite 0) = Returned (bytes ! 22) \<and>
      channel_byte (Finite 1) = Returned (bytes ! 23))"
proof -
  note t = channel_byte_truncating_cast
  note t6 = t [THEN conjunct2, THEN conjunct2, THEN conjunct2, THEN conjunct2, THEN conjunct2]
  note t8 = t6 [THEN conjunct2, THEN conjunct2]
  note t10 = t8 [THEN conjunct2, THEN conjunct2]
  note t12 = t10 [THEN conjunct2, THEN conjunct2]
  note t14 = t12 [THEN conjunct2, THEN conjunct2]
  have a: "(256 :: rat) \<le> 255 * 2" and b: "(255 :: rat) * (- 1) \<le> - 1" by simp_all
  have r1: "round_float32 (255 * (3 / 4)) = Finite (765 / 4)" by code_simp
  have r2: "round_float32 (255 * (- 1 / 512)) = Finite (- 255 / 512)" by code_simp
  have r3: "round_float32 (255 * (3 / 2)) = Finite (765 / 2)" by code_simp
  have f1: "\<lfloor>765 / 4 :: rat\<rfloor> = 191" by (rule floor_unique) simp_all
  have f2: "\<lfloor>255 * (1 / 2) :: rat\<rfloor> = 127" by (rule floor_unique) simp_all
  have f3: "\<lceil>255 * (1 / 2) :: rat\<rceil> = 128" by (rule ceiling_unique) simp_all
  have w6: "channel_byte (Finite 2) = Undefined"
    using t6 [THEN conjunct1, rule_format, OF a] .
  have w7: "channel_byte (Finite (- 1)) = Undefined"
    using t6 [THEN conjunct2, THEN conjunct1, rule_format, OF b] .
  have w8: "channel_byte (Finite (3 / 4)) = Returned 191"
    using t8 [THEN conjunct1, rule_format, of "3 / 4" "765 / 4"] r1 by (simp add: f1)
  have w9: "channel_byte (Finite (- 1 / 512)) = Returned 0"
    using t8 [THEN conjunct2, THEN conjunct1, rule_format, of "- 1 / 512" "- 255 / 512"] r2
    by simp
  have w10: "channel_byte (Finite (3 / 2)) = Undefined"
    using t10 [THEN conjunct1, rule_format, of "3 / 2" "765 / 2"] r3 by simp
  have w12: "\<exists>y b. round_float32 (255 * (1 / 2)) = Finite y \<and> 127 \<le> y \<and> y \<le> 128 \<and>
      channel_byte (Finite (1 / 2)) = Returned b \<and> uint b = \<lfloor>y\<rfloor> \<and>
      (uint b = 127 \<or> uint b = 128)"
    using t12 [THEN conjunct1, rule_format, of "1 / 2"] unfolding f2 f3 by simp
  have w13: "channel_byte (Finite 1) = Returned 255 \<and>
      channel_byte (Finite (1 / 2)) = Returned 127"
    using t12 [THEN conjunct2, THEN conjunct1, rule_format, OF ex_pixels,
        THEN conjunct2, THEN conjunct2, rule_format, of 5]
    by simp
  have h: "constants_ok env_ok \<and> readable env_ok"
    by (simp add: env_ok_def constants_ok_def readable_def pixel_ok_def channel_ok_def
        ex_channels)
  have run: "SaveRenderedImage env_ok app0 =
     (Returned (),
      app0\<lparr>calls := [vkMapMemory, vkUnmapMemory],
           png_input := Some ([255, 127, 0, 255, 255, 127, 0, 255, 255, 127, 0, 255,
                               255, 127, 0, 255, 255, 127, 0, 255, 255, 127, 0, 255], 3, 2)\<rparr>)"
    by (simp add: ex_simps env_ok_def)
  have run': "SaveRenderedImage env_ok app0 = (Returned (), snd (SaveRenderedImage env_ok app0))"
    by (simp only: run snd_conv)
  have w14: "\<exists>bytes. png_input (snd (SaveRenderedImage env_ok app0)) = Some (bytes, 3, 2) \<and>
      length bytes = 24 \<and>
      channel_byte (Finite 1) = Returned (bytes ! 20) \<and>
      channel_byte (Finite (1 / 2)) = Returned (bytes ! 21) \<and>
      channel_byte (Finite 0) = Returned (bytes ! 22) \<and>
      channel_byte (Finite 1) = Returned (bytes ! 23)"
  proof -
    from t14 [THEN conjunct1, rule_format, OF run'] obtain bytes where
      p: "png_input (snd (SaveRenderedImage env_ok app0)) = Some (bytes, kWidth env_ok, kHeight env_ok)"
      and l: "length bytes = 4 * nat (kWidth env_ok * kHeight env_ok)"
      and c: "\<forall>j < nat (kWidth env_ok * kHeight env_ok). \<exists>px. mapped_memory env_ok = Some px \<and>
            channel_byte (chan_r (px j)) = Returned (bytes ! (4 * j)) \<and>
            channel_byte (chan_g (px j)) = Returned (bytes ! (4 * j + 1)) \<and>
            channel_byte (chan_b (px j)) = Returned (bytes ! (4 * j + 2)) \<and>
            channel_byte (chan_a (px j)) = Returned (bytes ! (4 * j + 3))"
      by blast
    have "(5 :: nat) < nat (kWidth env_ok * kHeight env_ok)" by (simp add: env_ok_def)
    with c have "\<exists>px. mapped_memory env_ok = Some px \<and>
            channel_byte (chan_r (px 5)) = Returned (bytes ! (4 * 5)) \<and>
            channel_byte (chan_g (px 5)) = Returned (bytes ! (4 * 5 + 1)) \<and>
            channel_byte (chan_b (px 5)) = Returned (bytes ! (4 * 5 + 2)) \<and>
            channel_byte (chan_a (px 5)) = Returned (bytes ! (4 * 5 + 3))"
      by blast
    then have "channel_byte (Finite 1) = Returned (bytes ! 20) \<and>
      channel_byte (Finite (1 / 2)) = Returned (bytes ! 21) \<and>
      channel_byte (Finite 0) = Returned (bytes ! 22) \<and>
      channel_byte (Finite 1) = Returned (bytes ! 23)"
      by (auto simp: env_ok_def)
    moreover from p l have "png_input (snd (SaveRenderedImage env_ok app0)) = Some (bytes, 3, 2)"
      "length bytes = 24"
      by (simp_all add: env_ok_def)
    ultimately show ?thesis by blast
  qed
  from a b r1 r2 r3 w6 w7 w8 w9 w10 w12 w13 h run w14 ex_pixels show ?thesis
    by (intro conjI) (simp_all only: simp_thms)
qed

subsection \<open>Creation and destruction of resources\<close>

lemma map_filter_append: "List.map_filter g (xs @ ys) = List.map_filter g xs @ List.map_filter g ys"
  by (simp add: List.map_filter_def)

lemma traces_weaken: "traces g p rs \<Longrightarrow> rs = rs' \<Longrightarrow> traces g p rs'"
  by simp

lemma traces_return: "traces g (return v) []"
  by (simp add: traces_def return_def)

lemma traces_lift: "traces g (lift r) []"
  by (auto simp: traces_def lift_def)

lemma traces_throw: "traces g (throw what) []"
  by (simp add: traces_def throw_def)

lemma traces_abort: "traces g abort []"
  by (simp add: traces_def abort_def)

lemma traces_undefined_behaviour: "traces g undefined_behaviour []"
  by (simp add: traces_def undefined_behaviour_def)

lemma traces_modify: "(\<And>s. calls (f s) = calls s) \<Longrightarrow> traces g (modify f) []"
  by (auto simp: traces_def modify_def)

lemma traces_printf: "traces g (printf m) []"
  by (auto simp: traces_def printf_def modify_def)

lemma traces_call: "List.map_filter g [c] = rs \<Longrightarrow> traces g (call c) rs"
  by (auto simp: traces_def call_def modify_def map_filter_append)

lemma traces_bind:
  assumes "traces g m xs" "\<And>x. traces g (f x) ys"
  shows "traces g (bind m f) (xs @ ys)"
  unfolding traces_def
proof (intro allI impI)
  fix s x s'
  assume "bind m f s = (Returned x, s')"
  then obtain y s1 where 1: "m s = (Returned y, s1)" and 2: "f y s1 = (Returned x, s')"
    by (blast dest: bind_ReturnedD)
  from assms(1) 1 have "List.map_filter g (calls s1) = List.map_filter g (calls s) @ xs"
    unfolding traces_def by blast
  moreover from assms(2) [of y] 2
  have "List.map_filter g (calls s') = List.map_filter g (calls s1) @ ys"
    unfolding traces_def by blast
  ultimately show "List.map_filter g (calls s') = List.map_filter g (calls s) @ xs @ ys"
    by simp
qed

lemma traces_if_then: "traces g p rs \<Longrightarrow> traces g (if_then c p) (if c then rs else [])"
  by (simp add: if_then_def traces_return)

lemma traces_steps_Nil: "traces g (steps []) []"
  by (simp add: traces_return)

lemma traces_steps_Cons:
  "traces g p xs \<Longrightarrow> traces g (steps ps) ys \<Longrightarrow> traces g (steps (p # ps)) (xs @ ys)"
  by (simp add: traces_bind)

lemma traces_VK_CHECK_RESULT:
  "List.map_filter g [f] = rs \<Longrightarrow> traces g (VK_CHECK_RESULT e f) rs"
  by (auto simp: traces_def map_filter_append dest!: VK_CHECK_RESULT_calls)

lemmas traces_intros = traces_bind traces_steps_Cons traces_steps_Nil traces_if_then
  traces_VK_CHECK_RESULT traces_call traces_printf traces_return traces_lift traces_throw
  traces_abort traces_undefined_behaviour

lemma traces_case_prod: "(\<And>a b. traces g (f a b) rs) \<Longrightarrow> traces g (case_prod f x) rs"
  by (cases x) simp

lemma map_filter_single:
  "List.map_filter g [c] = (case g c of None \<Rightarrow> [] | Some r \<Rightarrow> [r])"
  by (simp add: List.map_filter_def split: option.splits)

lemma traces_GetComputeQueueFamilyIndex: "traces g (GetComputeQueueFamilyIndex e) []"
  by (auto simp: traces_def GetComputeQueueFamilyIndex_def Let_def return_def throw_def
      split: if_splits)

lemma traces_FindPhysicalDevice: "traces g (FindPhysicalDevice e) []"
  by (auto simp: traces_def FindPhysicalDevice_def modify_def throw_def split: list.splits)

lemma traces_ReadFile: "traces g (ReadFile e filename) []"
  by (auto simp: traces_def ReadFile_def prog_defs split: option.splits)

lemmas traces_rules = traces_intros traces_modify traces_case_prod
  traces_GetComputeQueueFamilyIndex traces_FindPhysicalDevice traces_ReadFile

lemma created_CreateInstance:
  "traces creates (CreateInstance e)
     (Instance # (if NDEBUG e then [] else [Debug_report_callback]))"
  unfolding CreateInstance_def kEnableValidationLayers_def
  by (rule traces_weaken, (rule traces_rules | simp add: map_filter_single)+)

lemma destroyed_CreateInstance: "traces destroys (CreateInstance e) []"
  unfolding CreateInstance_def kEnableValidationLayers_def
  by (rule traces_weaken, (rule traces_rules | simp add: map_filter_single)+)

lemma created_CreateDevice: "traces creates (CreateDevice e) [Device]"
  unfolding CreateDevice_def
  by (rule traces_weaken, (rule traces_rules | simp add: map_filter_single)+)

lemma destroyed_CreateDevice: "traces destroys (CreateDevice e) []"
  unfolding CreateDevice_def
  by (rule traces_weaken, (rule traces_rules | simp add: map_filter_single)+)

lemma created_CreateBuffer: "traces creates (CreateBuffer e) [Buffer, Device_memory]"
proof -
  have "traces creates (steps
     [VK_CHECK_RESULT e (vkCreateBuffer b),
      bind (lift r) (\<lambda>memoryTypeIndex. VK_CHECK_RESULT e (vkAllocateMemory memoryTypeIndex)),
      VK_CHECK_RESULT e vkBindBufferMemory]) [Buffer, Device_memory]" for b r
    by (rule traces_weaken, (rule traces_rules | simp add: map_filter_single)+)
  then show ?thesis
    unfolding traces_def CreateBuffer_def by blast
qed

lemma destroyed_CreateBuffer: "traces destroys (CreateBuffer e) []"
proof -
  have "traces destroys (steps
     [VK_CHECK_RESULT e (vkCreateBuffer b),
      bind (lift r) (\<lambda>memoryTypeIndex. VK_CHECK_RESULT e (vkAllocateMemory memoryTypeIndex)),
      VK_CHECK_RESULT e vkBindBufferMemory]) []" for b r
    by (rule traces_weaken, (rule traces_rules | simp add: map_filter_single)+)
  then show ?thesis
    unfolding traces_def CreateBuffer_def by blast
qed

lemma created_CreateDescriptorSetLayout:
  "traces creates (CreateDescriptorSetLayout e) [Descriptor_set_layout]"
  unfolding CreateDescriptorSetLayout_def
  by (rule traces_weaken, (rule traces_rules | simp add: map_filter_single)+)

lemma destroyed_CreateDescriptorSetLayout: "traces destroys (CreateDescriptorSetLayout e) []"
  unfolding CreateDescriptorSetLayout_def
  by (rule traces_weaken, (rule traces_rules | simp add: map_filter_single)+)

lemma created_CreateDescriptorSet:
  "traces creates (CreateDescriptorSet e) [Descriptor_pool, Descriptor_set]"
  unfolding CreateDescriptorSet_def
  by (rule traces_weaken, (rule traces_rules | simp add: map_filter_single)+)

lemma destroyed_CreateDescriptorSet: "traces destroys (CreateDescriptorSet e) []"
  unfolding CreateDescriptorSet_def
  by (rule traces_weaken, (rule traces_rules | simp add: map_filter_single)+)

lemma created_CreateComputePipeline:
  "traces creates (CreateComputePipeline e) [Shader_module, Pipeline_layout, Pipeline]"
  unfolding CreateComputePipeline_def
  by (rule traces_weaken, (rule traces_rules | simp add: map_filter_single)+)

lemma destroyed_CreateComputePipeline: "traces destroys (CreateComputePipeline e) []"
  unfolding CreateComputePipeline_def
  by (rule traces_weaken, (rule traces_rules | simp add: map_filter_single)+)

lemma created_CreateCommandBuffer: "traces creates (CreateCommandBuffer e) [Command_pool, Command_buffer]"
proof -
  have "traces creates (steps
     [VK_CHECK_RESULT e (vkCreateCommandPool q),
      VK_CHECK_RESULT e vkAllocateCommandBuffers,
      VK_CHECK_RESULT e vkBeginCommandBuffer,
      call vkCmdBindPipeline,
      call vkCmdBindDescriptorSets,
      bind (lift (group_count (kWidth e) (kWorkgroupeSize e))) (\<lambda>x.
        bind (lift (group_count (kHeight e) (kWorkgroupeSize e))) (\<lambda>y.
          call (vkCmdDispatch x y 1))),
      VK_CHECK_RESULT e vkEndCommandBuffer]) [Command_pool, Command_buffer]" for q
    by (rule traces_weaken, (rule traces_rules | simp add: map_filter_single)+)
  then show ?thesis
    unfolding traces_def CreateCommandBuffer_def by blast
qed

lemma destroyed_CreateCommandBuffer: "traces destroys (CreateCommandBuffer e) []"
proof -
  have "traces destroys (steps
     [VK_CHECK_RESULT e (vkCreateCommandPool q),
      VK_CHECK_RESULT e vkAllocateCommandBuffers,
      VK_CHECK_RESULT e vkBeginCommandBuffer,
      call vkCmdBindPipeline,
      call vkCmdBindDescriptorSets,
      bind (lift (group_count (kWidth e) (kWorkgroupeSize e))) (\<lambda>x.
        bind (lift (group_count (kHeight e) (kWorkgroupeSize e))) (\<lambda>y.
          call (vkCmdDispatch x y 1))),
      VK_CHECK_RESULT e vkEndCommandBuffer]) []" for q
    by (rule traces_weaken, (rule traces_rules | simp add: map_filter_single)+)
  then show ?thesis
    unfolding traces_def CreateCommandBuffer_def by blast
qed

lemma created_RunCommandBuffer: "traces creates (RunCommandBuffer e) [Fence]"
  unfolding RunCommandBuffer_def
  by (rule traces_weaken, (rule traces_rules | simp add: map_filter_single)+)

lemma destroyed_RunCommandBuffer: "traces destroys (RunCommandBuffer e) [Fence]"
  unfolding RunCommandBuffer_def
  by (rule traces_weaken, (rule traces_rules | simp add: map_filter_single)+)

lemma created_SaveRenderedImage: "traces creates (SaveRenderedImage e) []"
  unfolding SaveRenderedImage_def
  by (rule traces_weaken, (rule traces_rules | simp add: map_filter_single)+)

lemma destroyed_SaveRenderedImage: "traces destroys (SaveRenderedImage e) []"
  unfolding SaveRenderedImage_def
  by (rule traces_weaken, (rule traces_rules | simp add: map_filter_single)+)

lemma created_CleanUp: "traces creates (CleanUp e) []"
  unfolding CleanUp_def kEnableValidationLayers_def
  by (rule traces_weaken, (rule traces_rules | simp add: map_filter_single)+)

lemma destroyed_CleanUp:
  "traces destroys (CleanUp e)
     ((if NDEBUG e then [] else [Debug_report_callback]) @
      [Device_memory, Buffer, Shader_module, Descriptor_pool, Descriptor_set_layout,
       Pipeline_layout, Pipeline, Command_pool, Device, Instance])"
  unfolding CleanUp_def kEnableValidationLayers_def
  by (rule traces_weaken, (rule traces_rules | simp add: map_filter_single)+)

lemma created_Run:
  "traces creates (Run e)
     (Instance # (if NDEBUG e then [] else [Debug_report_callback]) @
      [Device, Buffer, Device_memory, Descriptor_set_layout, Descriptor_pool, Descriptor_set,
       Shader_module, Pipeline_layout, Pipeline, Command_pool, Command_buffer, Fence])"
  unfolding Run_def
  by (rule traces_weaken,
      (rule traces_steps_Cons traces_steps_Nil traces_modify created_CreateInstance
         traces_FindPhysicalDevice created_CreateDevice created_CreateBuffer
         created_CreateDescriptorSetLayout created_CreateDescriptorSet
         created_CreateComputePipeline created_CreateCommandBuffer created_RunCommandBuffer
         created_SaveRenderedImage created_CleanUp | simp)+)

lemma destroyed_Run:
  "traces destroys (Run e)
     (Fence # (if NDEBUG e then [] else [Debug_report_callback]) @
      [Device_memory, Buffer, Shader_module, Descriptor_pool, Descriptor_set_layout,
       Pipeline_layout, Pipeline, Command_pool, Device, Instance])"
  unfolding Run_def
  by (rule traces_weaken,
      (rule traces_steps_Cons traces_steps_Nil traces_modify destroyed_CreateInstance
         traces_FindPhysicalDevice destroyed_CreateDevice destroyed_CreateBuffer
         destroyed_CreateDescriptorSetLayout destroyed_CreateDescriptorSet
         destroyed_CreateComputePipeline destroyed_CreateCommandBuffer destroyed_RunCommandBuffer
         destroyed_SaveRenderedImage destroyed_CleanUp | simp)+)

text \<open>
  C9 (as amended). In every run that completes, the last calls are those of \<open>CleanUp\<close>,
  in exactly this order: the debug report callback (in a debug build), the memory, the
  buffer, the shader module, the descriptor pool, the descriptor set layout, the pipeline
  layout, the pipeline, the command pool, the device, the instance. With the fence, which
  \<open>RunCommandBuffer\<close> destroys itself, and the descriptor set and command buffer, which go
  with their pools, everything created is released; all objects of the device go before
  the device, and the instance goes last.
\<close>

theorem teardown_sequence:
  assumes "Run e app0 = (Returned (), s)"
  shows "(\<exists>before. calls s = before @
            (if NDEBUG e then [] else [vkDestroyDebugReportCallbackEXT]) @
            [vkFreeMemory, vkDestroyBuffer, vkDestroyShaderModule, vkDestroyDescriptorPool,
             vkDestroyDescriptorSetLayout, vkDestroyPipelineLayout, vkDestroyPipeline,
             vkDestroyCommandPool, vkDestroyDevice, vkDestroyInstance]) \<and>
         created (calls s) =
           Instance # (if NDEBUG e then [] else [Debug_report_callback]) @
           [Device, Buffer, Device_memory, Descriptor_set_layout, Descriptor_pool,
            Descriptor_set, Shader_module, Pipeline_layout, Pipeline, Command_pool,
            Command_buffer, Fence] \<and>
         destroyed (calls s) =
           Fence # (if NDEBUG e then [] else [Debug_report_callback]) @
           [Device_memory, Buffer, Shader_module, Descriptor_pool, Descriptor_set_layout,
            Pipeline_layout, Pipeline, Command_pool, Device, Instance]"
proof -
  from assms obtain s' where "CleanUp e s' = (Returned (), s)"
    by (rule Run_ends_with_CleanUp)
  then have "calls s = calls s' @
            (if NDEBUG e then [] else [vkDestroyDebugReportCallbackEXT]) @
            [vkFreeMemory, vkDestroyBuffer, vkDestroyShaderModule, vkDestroyDescriptorPool,
             vkDestroyDescriptorSetLayout, vkDestroyPipelineLayout, vkDestroyPipeline,
             vkDestroyCommandPool, vkDestroyDevice, vkDestroyInstance]"
    by (auto simp: CleanUp_closed_form split: if_splits)
  then have a: "\<exists>before. calls s = before @
            (if NDEBUG e then [] else [vkDestroyDebugReportCallbackEXT]) @
            [vkFreeMemory, vkDestroyBuffer, vkDestroyShaderModule, vkDestroyDescriptorPool,
             vkDestroyDescriptorSetLayout, vkDestroyPipelineLayout, vkDestroyPipeline,
             vkDestroyCommandPool, vkDestroyDevice, vkDestroyInstance]"
    by blast
  have c0: "calls app0 = []" by (simp add: app0_def)
  from created_Run [of e] assms have b: "created (calls s) =
           Instance # (if NDEBUG e then [] else [Debug_report_callback]) @
           [Device, Buffer, Device_memory, Descriptor_set_layout, Descriptor_pool,
            Descriptor_set, Shader_module, Pipeline_layout, Pipeline, Command_pool,
            Command_buffer, Fence]"
    unfolding traces_def created_def by (fastforce simp: c0 List.map_filter_def)
  from destroyed_Run [of e] assms have c: "destroyed (calls s) =
           Fence # (if NDEBUG e then [] else [Debug_report_callback]) @
           [Device_memory, Buffer, Shader_module, Descriptor_pool, Descriptor_set_layout,
            Pipeline_layout, Pipeline, Command_pool, Device, Instance]"
    unfolding traces_def destroyed_def by (fastforce simp: c0 List.map_filter_def)
  from a b c show ?thesis by (simp only: simp_thms)
qed

lemma Run_env_ok: "fst (Run env_ok app0) = Returned ()"
  by (simp add: ex_simps env_ok_def)

theorem teardown_sequence_witness:
  "fst (Run env_ok app0) = Returned () \<and>
   created (calls (snd (Run env_ok app0))) =
     [Instance, Debug_report_callback, Device, Buffer, Device_memory, Descriptor_set_layout,
      Descriptor_pool, Descriptor_set, Shader_module, Pipeline_layout, Pipeline, Command_pool,
      Command_buffer, Fence] \<and>
   destroyed (calls (snd (Run env_ok app0))) =
     [Fence, Debug_report_callback, Device_memory, Buffer, Shader_module, Descriptor_pool,
      Descriptor_set_layout, Pipeline_layout, Pipeline, Command_pool, Device, Instance]"
proof -
  have r: "Run env_ok app0 = (Returned (), snd (Run env_ok app0))"
    using Run_env_ok by (simp add: prod_eq_iff)
  have n: "\<not> NDEBUG env_ok" by (simp add: env_ok_def)
  from teardown_sequence [OF r] n Run_env_ok show ?thesis
    by simp
qed

text \<open>
  C9 as stated fails: the order of destruction is not the reverse of the order of
  creation. The memory and the buffer, created right after the device, are released
  first, and the shader module and both layouts before the pipeline built from them.
\<close>

theorem teardown_not_reverse_of_creation_counterexample:
  "created (calls (snd (main env_ok))) =
     [Instance, Debug_report_callback, Device, Buffer, Device_memory, Descriptor_set_layout,
      Descriptor_pool, Descriptor_set, Shader_module, Pipeline_layout, Pipeline, Command_pool,
      Command_buffer, Fence] \<and>
   destroyed (calls (snd (main env_ok))) =
     [Fence, Debug_report_callback, Device_memory, Buffer, Shader_module, Descriptor_pool,
      Descriptor_set_layout, Pipeline_layout, Pipeline, Command_pool, Device, Instance] \<and>
   destroyed (calls (snd (main env_ok))) \<noteq>
     rev [Instance, Debug_report_callback, Device, Buffer, Device_memory, Descriptor_set_layout,
          Descriptor_pool, Shader_module, Pipeline_layout, Pipeline, Command_pool, Fence]"
  by (simp add: ex_simps env_ok_def created_def destroyed_def List.map_filter_def)

subsection \<open>The exit code\<close>

text \<open>
  C6 at a failing input. Release build; \<open>vkWaitForFences\<close> answers \<open>VK_TIMEOUT\<close> and
  everything else succeeds. The claim asks for an error message and a non-zero exit
  code; the program prints the line of \<open>VK_CHECK_RESULT\<close>, goes on, and exits with
  \<open>EXIT_SUCCESS\<close>.
\<close>

theorem fence_timeout_exits_zero_in_release_build:
  "NDEBUG env_fence_timeout \<and>
   vk_result env_fence_timeout vkWaitForFences = VK_TIMEOUT \<and>
   fst (main env_fence_timeout) = Returned EXIT_SUCCESS \<and>
   stdout (snd (main env_fence_timeout)) = [Fatal_VkResult VK_TIMEOUT]"
  by (simp add: ex_simps env_fence_timeout_def env_release_def env_ok_def VK_TIMEOUT_def)

text \<open>
  C2 at a failing input. The file \<open>shaders/comp.spv\<close> cannot be opened. The claim asks
  for a report and a non-zero exit code; \<open>ReadFile\<close> prints its line and then uses the
  null stream, so the run ends in undefined behaviour, neither in \<open>EXIT_FAILURE\<close> nor in
  any other exit code that the program chooses.
\<close>

theorem ReadFile_missing_file_undefined:
  "files env_no_shader ''shaders/comp.spv'' = None \<and>
   ReadFile env_no_shader ''shaders/comp.spv'' app0 =
     (Undefined, app0\<lparr>stdout := [Could_not_find_or_open ''shaders/comp.spv'']\<rparr>) \<and>
   fst (main env_no_shader) = Undefined \<and>
   stdout (snd (main env_no_shader)) = [Could_not_find_or_open ''shaders/comp.spv'']"
  by (simp add: ex_simps env_no_shader_def env_ok_def)

subsection \<open>Failure of the encoder\<close>

lemma SaveRenderedImage_encoder_error:
  assumes "SaveRenderedImage (e\<lparr>encoder_error := 0\<rparr>) s = (Returned (), s')" "k \<noteq> 0"
  shows "SaveRenderedImage (e\<lparr>encoder_error := k\<rparr>) s =
           (Returned (), s'\<lparr>stdout := stdout s' @ [Encoder_error k]\<rparr>)"
  using assms
  by (auto simp: SaveRenderedImage_def prog_defs split: if_splits result.splits)

lemma GetComputeQueueFamilyIndex_encoder_error:
  "GetComputeQueueFamilyIndex (e\<lparr>encoder_error := k\<rparr>) = GetComputeQueueFamilyIndex e"
  by (rule ext) (simp add: GetComputeQueueFamilyIndex_def)

lemma encoder_error_irrelevant:
  "CreateInstance (e\<lparr>encoder_error := k\<rparr>) = CreateInstance e"
  "FindPhysicalDevice (e\<lparr>encoder_error := k\<rparr>) = FindPhysicalDevice e"
  "CreateDevice (e\<lparr>encoder_error := k\<rparr>) = CreateDevice e"
  "CreateBuffer (e\<lparr>encoder_error := k\<rparr>) = CreateBuffer e"
  "CreateDescriptorSetLayout (e\<lparr>encoder_error := k\<rparr>) = CreateDescriptorSetLayout e"
  "CreateDescriptorSet (e\<lparr>encoder_error := k\<rparr>) = CreateDescriptorSet e"
  "CreateComputePipeline (e\<lparr>encoder_error := k\<rparr>) = CreateComputePipeline e"
  "CreateCommandBuffer (e\<lparr>encoder_error := k\<rparr>) = CreateCommandBuffer e"
  "RunCommandBuffer (e\<lparr>encoder_error := k\<rparr>) = RunCommandBuffer e"
  "CleanUp (e\<lparr>encoder_error := k\<rparr>) = CleanUp e"
  by (simp_all add: CreateInstance_def FindPhysicalDevice_def CreateDevice_def CreateBuffer_def
      CreateDescriptorSetLayout_def CreateDescriptorSet_def CreateComputePipeline_def
      CreateCommandBuffer_def RunCommandBuffer_def CleanUp_def ReadFile_def
      GetComputeQueueFamilyIndex_encoder_error VK_CHECK_RESULT_def kEnableValidationLayers_def
      fun_eq_iff)

lemma CleanUp_stdout:
  assumes "CleanUp e s = (Returned (), s')"
  shows "CleanUp e (s\<lparr>stdout := out\<rparr>) = (Returned (), s'\<lparr>stdout := out\<rparr>)"
  using assms by (auto simp: CleanUp_closed_form split: if_splits)

lemma CleanUp_keeps_stdout: "CleanUp e s = (Returned (), s') \<Longrightarrow> stdout s' = stdout s"
  by (auto simp: CleanUp_closed_form split: if_splits)

text \<open>
  C7. When the run with a succeeding encoder exits with \<open>EXIT_SUCCESS\<close>, the run in which
  the encoder returns a status other than zero exits with \<open>EXIT_SUCCESS\<close> as well, and
  ends in the same state (the same calls, the same image handed to the encoder) except
  for one more line of output, which reports the status.
\<close>

theorem encoder_failure_is_not_fatal:
  assumes "main (e\<lparr>encoder_error := 0\<rparr>) = (Returned EXIT_SUCCESS, s)" and "k \<noteq> 0"
  shows "main (e\<lparr>encoder_error := k\<rparr>) =
           (Returned EXIT_SUCCESS, s\<lparr>stdout := stdout s @ [Encoder_error k]\<rparr>)"
proof -
  from assms(1) have "Run (e\<lparr>encoder_error := 0\<rparr>) app0 = (Returned (), s)"
    by (simp only: main_success)
  note this [unfolded Run_def encoder_error_irrelevant]
  then obtain s1 s2 s3 s4 s5 s6 s7 s8 s9 s10 s11 s12
    where 1: "modify (\<lambda>s. s\<lparr>buffer_size := word_of_int
                (16 * kWidth (e\<lparr>encoder_error := 0\<rparr>) * kHeight (e\<lparr>encoder_error := 0\<rparr>))\<rparr>) app0 =
              (Returned (), s1)"
      and 2: "CreateInstance e s1 = (Returned (), s2)"
      and 3: "FindPhysicalDevice e s2 = (Returned (), s3)"
      and 4: "CreateDevice e s3 = (Returned (), s4)"
      and 5: "CreateBuffer e s4 = (Returned (), s5)"
      and 6: "CreateDescriptorSetLayout e s5 = (Returned (), s6)"
      and 7: "CreateDescriptorSet e s6 = (Returned (), s7)"
      and 8: "CreateComputePipeline e s7 = (Returned (), s8)"
      and 9: "CreateCommandBuffer e s8 = (Returned (), s9)"
      and 10: "RunCommandBuffer e s9 = (Returned (), s10)"
      and 11: "SaveRenderedImage (e\<lparr>encoder_error := 0\<rparr>) s10 = (Returned (), s11)"
      and 12: "CleanUp e s11 = (Returned (), s12)"
      and 13: "steps [] s12 = (Returned (), s)"
    by (elim steps_ConsE)
  from 13 have s: "s12 = s" by (simp add: return_def)
  from 1 have 1: "modify (\<lambda>s. s\<lparr>buffer_size := word_of_int
                (16 * kWidth (e\<lparr>encoder_error := k\<rparr>) * kHeight (e\<lparr>encoder_error := k\<rparr>))\<rparr>) app0 =
              (Returned (), s1)"
    by simp
  note 11 = SaveRenderedImage_encoder_error [OF 11 assms(2)]
  note 12 = CleanUp_stdout [OF 12, of "stdout s11 @ [Encoder_error k]"]
  have "stdout s = stdout s11"
    using CleanUp_keeps_stdout [OF \<open>CleanUp e s11 = (Returned (), s12)\<close>] s by simp
  with 1 2 3 4 5 6 7 8 9 10 11 12 s
  have "Run (e\<lparr>encoder_error := k\<rparr>) app0 =
      (Returned (), s\<lparr>stdout := stdout s @ [Encoder_error k]\<rparr>)"
    unfolding Run_def encoder_error_irrelevant steps.simps
    by (simp add: bind_def return_def)
  then show ?thesis
    by (simp only: main_success)
qed

lemma main_env_ok: "fst (main env_ok) = Returned EXIT_SUCCESS" "stdout (snd (main env_ok)) = []"
  by (simp_all add: ex_simps env_ok_def)

theorem encoder_failure_is_not_fatal_witness:
  "fst (main (env_ok\<lparr>encoder_error := 0\<rparr>)) = Returned EXIT_SUCCESS \<and>
   encoder_error env_encoder_fails \<noteq> 0 \<and>
   fst (main env_encoder_fails) = Returned EXIT_SUCCESS \<and>
   stdout (snd (main env_encoder_fails)) = [Encoder_error 79] \<and>
   calls (snd (main env_encoder_fails)) = calls (snd (main env_ok)) \<and>
   png_input (snd (main env_encoder_fails)) = png_input (snd (main env_ok))"
proof -
  have e: "env_ok\<lparr>encoder_error := 0\<rparr> = env_ok"
    by (simp add: env_ok_def)
  have m: "main (env_ok\<lparr>encoder_error := 0\<rparr>) = (Returned EXIT_SUCCESS, snd (main env_ok))"
    using main_env_ok(1) by (simp add: e prod_eq_iff)
  have "(79 :: u32) \<noteq> 0" by simp
  from encoder_failure_is_not_fatal [OF m this] main_env_ok show ?thesis
    by (simp add: e env_encoder_fails_def)
qed

end
